theory Spec2Isabelle
  imports Complex_Main "HOL-Library.Multiset" "HOL-Library.Sublist" "HOL-Library.Char_ord"
    "HOL-Library.List_Lexorder"
begin

section \<open>Strings and numbers of the host language\<close>

text \<open>
  JavaScript strings are modelled as \<open>string\<close> (lists of 8-bit characters), so the
  model covers ASCII text: \<open>toLowerCase\<close> folds \<open>A\<close>..\<open>Z\<close> only and \<open>trim\<close> strips
  the ASCII members of the ECMAScript white space set (tab, line feed, vertical tab,
  form feed, carriage return, space).
\<close>

definition isWhitespace :: "char \<Rightarrow> bool" where
  "isWhitespace c = (c \<in> set [CHR 0x09, CHR 0x0A, CHR 0x0B, CHR 0x0C, CHR 0x0D, CHR '' ''])"

definition trim :: "string \<Rightarrow> string" where
  "trim s = rev (dropWhile isWhitespace (rev (dropWhile isWhitespace s)))"

definition lowerChar :: "char \<Rightarrow> char" where
  "lowerChar c =
     (case map_of (zip ''ABCDEFGHIJKLMNOPQRSTUVWXYZ'' ''abcdefghijklmnopqrstuvwxyz'') c of
        Some d \<Rightarrow> d
      | None \<Rightarrow> c)"

definition toLowerCase :: "string \<Rightarrow> string" where
  "toLowerCase s = map lowerChar s"

fun startsWith :: "string \<Rightarrow> string \<Rightarrow> bool" where
  "startsWith s [] = True"
| "startsWith [] (p # ps) = False"
| "startsWith (c # cs) (p # ps) = (c = p \<and> startsWith cs ps)"

text \<open>\<open>String.prototype.includes\<close>: the second string occurs somewhere in the first.\<close>

fun includes_str :: "string \<Rightarrow> string \<Rightarrow> bool" where
  "includes_str [] sub = (sub = [])"
| "includes_str (c # cs) sub = (startsWith (c # cs) sub \<or> includes_str cs sub)"

text \<open>\<open>s.replace(/\s+/g, '_')\<close>: every maximal run of white space becomes one underscore.\<close>

function replaceSpaces :: "string \<Rightarrow> string" where
  "replaceSpaces [] = []"
| "replaceSpaces (c # cs) =
     (if isWhitespace c then CHR ''_'' # replaceSpaces (dropWhile isWhitespace cs)
      else c # replaceSpaces cs)"
  by pat_completeness auto
termination
  by (relation "measure length") (auto simp: length_dropWhile_le less_Suc_eq_le)

text \<open>
  JavaScript numbers are IEEE-754 doubles. A finite double is represented by its value, a
  rational number; \<open>roundDouble\<close> rounds a rational to the nearest double, ties to the even
  mantissa, with overflow to an infinity and gradual underflow. The sign of zero is not
  modelled (\<open>-0\<close> and \<open>0\<close> are both \<open>Fin 0\<close>; no operation of the code tells them apart).
\<close>

datatype jsnum = NaN | NegInf | Fin rat | PosInf

text \<open>The number of binary digits of a positive integer.\<close>

function bitLength :: "int \<Rightarrow> nat" where
  "bitLength n = (if n \<le> 0 then 0 else Suc (bitLength (n div 2)))"
  by pat_completeness auto
termination
  by (relation "measure nat") auto

definition pow2 :: "int \<Rightarrow> rat" where
  "pow2 k = (if 0 \<le> k then 2 ^ nat k else 1 / 2 ^ nat (- k))"

text \<open>Numerator and denominator of \<open>(p / q) / 2 ^ e\<close>.\<close>

definition scaled :: "int \<Rightarrow> int \<Rightarrow> int \<Rightarrow> int \<times> int" where
  "scaled p q e = (if 0 \<le> e then (p, q * 2 ^ nat e) else (p * 2 ^ nat (- e), q))"

text \<open>
  The integer \<open>k\<close> with \<open>2 ^ k \<le> p / q < 2 ^ (k + 1)\<close>, for positive \<open>p\<close> and \<open>q\<close>: the
  difference of the bit lengths, or one less.
\<close>

definition floorLog2 :: "int \<Rightarrow> int \<Rightarrow> int" where
  "floorLog2 p q =
     (let k = int (bitLength p) - int (bitLength q)
      in case scaled p q k of (n, d) \<Rightarrow> if d \<le> n then k else k - 1)"

text \<open>The integer nearest to \<open>n / d\<close>, the even one of two that are equally near.\<close>

definition roundHalfEven :: "int \<Rightarrow> int \<Rightarrow> int" where
  "roundHalfEven n d =
     (let f = n div d; r = n mod d
      in if 2 * r < d then f else if d < 2 * r then f + 1 else if even f then f else f + 1)"

text \<open>
  Rounding to a double: the mantissa has 53 bits, so the unit in the last place is
  \<open>2 ^ e\<close> with \<open>e\<close> the exponent of the value less 52, and at least -1074 (subnormal
  numbers); the magnitude is the nearest multiple \<open>m * 2 ^ e\<close>, and it overflows when it
  reaches \<open>2 ^ 1024\<close>, that is when \<open>m\<close> has more than \<open>1024 - e\<close> bits.
\<close>

definition roundDouble :: "rat \<Rightarrow> jsnum" where
  "roundDouble x =
     (case quotient_of x of (p0, q) \<Rightarrow>
        if p0 = 0 then Fin 0
        else
          (let p = \<bar>p0\<bar>;
               e = max (floorLog2 p q - 52) (- 1074);
               m = (case scaled p q e of (n, d) \<Rightarrow> roundHalfEven n d)
           in if 1024 < int (bitLength m) + e then (if p0 < 0 then NegInf else PosInf)
              else Fin ((if p0 < 0 then - of_int m else of_int m) * pow2 e)))"

text \<open>
  \<open>x + y\<close> on numbers: the exact sum of two finite doubles, rounded; the rules of IEEE-754
  for the special values.
\<close>

fun js_add :: "jsnum \<Rightarrow> jsnum \<Rightarrow> jsnum" where
  "js_add NaN y = NaN"
| "js_add x NaN = NaN"
| "js_add PosInf NegInf = NaN"
| "js_add NegInf PosInf = NaN"
| "js_add PosInf y = PosInf"
| "js_add x PosInf = PosInf"
| "js_add NegInf y = NegInf"
| "js_add x NegInf = NegInf"
| "js_add (Fin a) (Fin b) = roundDouble (a + b)"

text \<open>\<open>x <= y\<close> and \<open>x > y\<close> on numbers; both are false when an operand is \<open>NaN\<close>.\<close>

fun js_le :: "jsnum \<Rightarrow> jsnum \<Rightarrow> bool" where
  "js_le NaN y = False"
| "js_le x NaN = False"
| "js_le NegInf y = True"
| "js_le x PosInf = True"
| "js_le PosInf y = False"
| "js_le x NegInf = False"
| "js_le (Fin a) (Fin b) = (a \<le> b)"

definition js_gt :: "jsnum \<Rightarrow> jsnum \<Rightarrow> bool" where
  "js_gt x y = (x \<noteq> NaN \<and> y \<noteq> NaN \<and> \<not> js_le x y)"

text \<open>\<open>x || 0\<close> on a number: \<open>NaN\<close> and zero are falsy.\<close>

definition numOrZero :: "jsnum \<Rightarrow> jsnum" where
  "numOrZero x = (if x = NaN \<or> x = Fin 0 then Fin 0 else x)"

definition isDigit :: "char \<Rightarrow> bool" where
  "isDigit c = (c \<in> set ''0123456789'')"

definition digitVal :: "char \<Rightarrow> nat" where
  "digitVal c = length (takeWhile (\<lambda>d. d \<noteq> c) ''0123456789'')"

definition digitsVal :: "string \<Rightarrow> int" where
  "digitsVal ds = foldl (\<lambda>n c. 10 * n + int (digitVal c)) 0 ds"

text \<open>An optional sign in front of a numeral: whether it is negative, and the rest.\<close>

definition takeSign :: "string \<Rightarrow> bool \<times> string" where
  "takeSign s =
     (case s of
        [] \<Rightarrow> (False, s)
      | c # r \<Rightarrow> if c = CHR ''-'' then (True, r) else if c = CHR ''+'' then (False, r) else (False, s))"

text \<open>The exponent part of a decimal literal; 0 when there is none or it has no digits.\<close>

definition exponentPart :: "string \<Rightarrow> int" where
  "exponentPart r =
     (case r of
        [] \<Rightarrow> 0
      | c # r' \<Rightarrow>
          if c = CHR ''e'' \<or> c = CHR ''E'' then
            (let (eneg, d) = takeSign r'; ds = takeWhile isDigit d
             in if ds = [] then 0
                else if eneg then - digitsVal ds else digitsVal ds)
          else 0)"

definition scale10 :: "rat \<Rightarrow> int \<Rightarrow> rat" where
  "scale10 m e = (if 0 \<le> e then m * 10 ^ nat e else m / 10 ^ nat (- e))"

text \<open>
  The global \<open>parseFloat\<close>: leading white space is skipped, the longest prefix that is a
  decimal literal (or \<open>Infinity\<close>) is read, anything after it is ignored; \<open>NaN\<close> when
  there is no such prefix. The result is the double nearest to the value of the literal.
\<close>

definition parseFloat :: "string \<Rightarrow> jsnum" where
  "parseFloat s =
     (let (neg, u) = takeSign (dropWhile isWhitespace s)
      in if startsWith u ''Infinity'' then (if neg then NegInf else PosInf)
         else
           (let ip = takeWhile isDigit u;
                r1 = dropWhile isDigit u;
                (fp, r2) = (case r1 of
                              [] \<Rightarrow> ([], r1)
                            | c # r \<Rightarrow> if c = CHR ''.''
                                       then (takeWhile isDigit r, dropWhile isDigit r)
                                       else ([], r1))
            in if ip = [] \<and> fp = [] then NaN
               else
                 (let m = rat_of_int (digitsVal (ip @ fp)) / 10 ^ length fp;
                      v = scale10 m (exponentPart r2)
                  in roundDouble (if neg then - v else v))))"

section \<open>preprocess.js: the normalizer\<close>

definition VALID_CATEGORIES :: "string list" where
  "VALID_CATEGORIES =
     [''Vegetables'', ''Fruits'', ''Spices'', ''Cereals'', ''Pulses'', ''Oil Seeds'',
      ''Oils and Fats'', ''Fibre Crops'', ''Forest Products'', ''Flowers'', ''Dry Fruits'',
      ''Beverages'', ''Live Stock'', ''Drug and Narcotics'', ''Other'']"

text \<open>
  \<open>mapCategoryToValid(csvGroup, cropName)\<close>, with \<open>null\<close> as \<open>None\<close>. The crop name is
  lower-cased by the source and then never used.
\<close>

definition mapCategoryToValid :: "string \<Rightarrow> string \<Rightarrow> string option" where
  "mapCategoryToValid csvGroup cropName =
     (if csvGroup = [] then None
      else
        (let normalizedGroup = trim csvGroup;
             normalizedGroupLower = toLowerCase normalizedGroup
         in case find (\<lambda>cat. toLowerCase normalizedGroup = toLowerCase cat) VALID_CATEGORIES of
              Some directMatch \<Rightarrow> Some directMatch
            | None \<Rightarrow>
                if normalizedGroupLower = ''spices'' then Some ''Spices''
                else if normalizedGroupLower = ''cereals'' then Some ''Cereals''
                else if normalizedGroupLower = ''pulses'' then Some ''Pulses''
                else if normalizedGroupLower = ''oil seeds'' \<or> normalizedGroupLower = ''oilseeds''
                  then Some ''Oil Seeds''
                else if normalizedGroupLower = ''oils and fats''
                        \<or> normalizedGroupLower = ''oil and fats''
                  then Some ''Oils and Fats''
                else if normalizedGroupLower = ''fibre crops''
                        \<or> normalizedGroupLower = ''fiber crops''
                  then Some ''Fibre Crops''
                else if normalizedGroupLower = ''forest products'' then Some ''Forest Products''
                else if normalizedGroupLower = ''flowers'' then Some ''Flowers''
                else if normalizedGroupLower = ''dry fruits'' then Some ''Dry Fruits''
                else if normalizedGroupLower = ''beverages'' then Some ''Beverages''
                else if includes_str normalizedGroupLower ''live stock''
                        \<or> includes_str normalizedGroupLower ''livestock''
                  then Some ''Live Stock''
                else if normalizedGroupLower = ''drug and narcotics''
                        \<or> normalizedGroupLower = ''drug & narcotics''
                  then Some ''Drug and Narcotics''
                else if normalizedGroupLower = ''other'' then Some ''Other''
                else None))"

text \<open>
  A CSV row is an object from header names to strings; a header that the file does not
  have reads as \<open>undefined\<close> (\<open>None\<close>).
\<close>

type_synonym row = "string \<rightharpoonup> string"

text \<open>\<open>a || b\<close> where \<open>a\<close> is a string or \<open>undefined\<close>: \<open>a\<close> unless it is \<open>undefined\<close> or \<open>''\<close>.\<close>

definition orElse :: "string option \<Rightarrow> string \<Rightarrow> string" where
  "orElse a b = (case a of None \<Rightarrow> b | Some s \<Rightarrow> if s = [] then b else s)"

text \<open>The fields of a row that passed every check of \<open>processRow\<close> (lines 156-199).\<close>

record canonical =
  c_state :: string
  c_category :: string
  c_cropName :: string
  c_scientificName :: string
  c_district :: string
  c_quantity :: jsnum
  c_suitability :: string

definition rowState :: "row \<Rightarrow> string" where
  "rowState r = trim (orElse (r ''state'') (orElse (r ''State Name'') []))"

definition rowCategory :: "row \<Rightarrow> string" where
  "rowCategory r = trim (orElse (r ''category'') (orElse (r ''Group'') []))"

definition rowDistrict :: "row \<Rightarrow> string" where
  "rowDistrict r = trim (orElse (r ''district'') (orElse (r ''District Name'') []))"

definition rowCropName :: "row \<Rightarrow> string \<Rightarrow> string" where
  "rowCropName r cropNameFromFile =
     (if cropNameFromFile \<noteq> [] then cropNameFromFile
      else trim (orElse (r ''crop_name'') (orElse (r ''Variety'') [])))"

definition rowScientificName :: "row \<Rightarrow> string" where
  "rowScientificName r =
     trim (orElse (r ''scientific_name'') (orElse (r ''Scientific Name'') []))"

definition rowQuantity :: "row \<Rightarrow> jsnum" where
  "rowQuantity r =
     numOrZero (parseFloat (orElse (r ''demand_quantity'')
                  (orElse (r ''Arrivals (Tonnes)'') (orElse (r ''Arrivals'') ''0''))))"

definition rowSuitability :: "row \<Rightarrow> string" where
  "rowSuitability r = trim (orElse (r ''suitability'') (orElse (r ''Suitability'') ''Medium''))"

text \<open>Lines 184-194: the case-insensitive direct match, then the fallback classifier.\<close>

definition validCategoryOf :: "string \<Rightarrow> string \<Rightarrow> string option" where
  "validCategoryOf category cropName =
     (let categoryLower = trim (toLowerCase category)
      in case find (\<lambda>cat. toLowerCase cat = categoryLower) VALID_CATEGORIES of
           Some directMatch \<Rightarrow> Some directMatch
         | None \<Rightarrow> mapCategoryToValid category cropName)"

text \<open>
  The first half of \<open>processRow\<close> (lines 156-199): the fields are read, and each early
  \<open>return\<close> is the result \<open>None\<close>.
\<close>

definition normalizeRow :: "row \<Rightarrow> string \<Rightarrow> canonical option" where
  "normalizeRow r cropNameFromFile =
     (let state = rowState r;
          category = rowCategory r;
          district = rowDistrict r;
          cropName = rowCropName r cropNameFromFile;
          scientificName = rowScientificName r;
          demandQuantity = rowQuantity r;
          suitability = rowSuitability r
      in if state = [] \<or> category = [] \<or> cropName = [] then None
         else if js_le demandQuantity (Fin 0) then None
         else
           (case validCategoryOf category cropName of
              None \<Rightarrow> None
            | Some validCategory \<Rightarrow>
                if validCategory \<notin> set VALID_CATEGORIES then None
                else Some \<lparr>c_state = state, c_category = validCategory, c_cropName = cropName,
                           c_scientificName = scientificName, c_district = district,
                           c_quantity = demandQuantity, c_suitability = suitability\<rparr>))"

section \<open>preprocess.js: the aggregation state\<close>

text \<open>
  One entry of \<open>regionalSuitability\<close>; \<open>rf_state\<close> is its field \<open>state\<close>.
\<close>

record regionFact =
  geography :: string
  district :: string
  rf_state :: string
  suitability :: string

text \<open>The object under \<open>categoryId\<close>: \<open>ref_id\<close> is \<open>_id\<close>, \<open>ref_name\<close> is \<open>name\<close>.\<close>

record categoryRef =
  ref_id :: string
  ref_name :: string

text \<open>
  A crop. \<open>uuidv4()\<close> is modelled by a supply of fresh identifiers: the n-th crop that is
  created gets the identifier n.
\<close>

record crop =
  cropId :: nat
  cropName :: string
  scientificName :: string
  categoryId :: categoryRef
  demandQuantity :: jsnum
  regionalSuitability :: "regionFact list"

record summary =
  totalCategories :: nat
  totalCrops :: nat
  totalDemand :: jsnum
  unit :: string

record stateSummary = summary +
  lastUpdated :: string

text \<open>
  The values of the nested \<open>Map\<close>s of \<open>stateDataMap\<close>. A \<open>Map\<close> keeps its keys in
  insertion order and each key once: it is an association list, appended to on a new key
  and updated in place on an old one.
\<close>

record categoryData =
  cd_name :: string
  cd_count :: nat
  cropsMap :: "(string \<times> crop) list"

record stateData =
  sd_state :: string
  categoriesMap :: "(string \<times> categoryData) list"
  sd_summary :: stateSummary

record builder =
  stateDataMap :: "(string \<times> stateData) list"
  nextCropId :: nat

text \<open>
  \<open>if (!m.has(k)) m.set(k, d); const v = m.get(k); ...\<close> followed by the in-place change
  \<open>f\<close> of \<open>v\<close>.
\<close>

fun upsert :: "'k \<Rightarrow> 'v \<Rightarrow> ('v \<Rightarrow> 'v) \<Rightarrow> ('k \<times> 'v) list \<Rightarrow> ('k \<times> 'v) list" where
  "upsert k d f [] = [(k, f d)]"
| "upsert k d f ((k', v) # al) =
     (if k' = k then (k', f v) # al else (k', v) # upsert k d f al)"

definition initBuilder :: builder where
  "initBuilder = \<lparr>stateDataMap = [], nextCropId = 0\<rparr>"

definition lookupCrop :: "builder \<Rightarrow> string \<Rightarrow> string \<Rightarrow> string \<Rightarrow> crop option" where
  "lookupCrop b st cat key =
     (case map_of (stateDataMap b) st of
        None \<Rightarrow> None
      | Some sd \<Rightarrow>
          (case map_of (categoriesMap sd) cat of
             None \<Rightarrow> None
           | Some cd \<Rightarrow> map_of (cropsMap cd) key))"

definition newStateData :: "string \<Rightarrow> stateData" where
  "newStateData st =
     \<lparr>sd_state = st, categoriesMap = [],
      sd_summary = \<lparr>totalCategories = 0, totalCrops = 0, totalDemand = Fin 0,
                    unit = ''tons per week'', lastUpdated = []\<rparr>\<rparr>"

definition newCategoryData :: "string \<Rightarrow> categoryData" where
  "newCategoryData validCategory = \<lparr>cd_name = validCategory, cd_count = 0, cropsMap = []\<rparr>"

definition newCrop :: "nat \<Rightarrow> canonical \<Rightarrow> crop" where
  "newCrop cid r =
     \<lparr>cropId = cid, cropName = c_cropName r, scientificName = c_scientificName r,
      categoryId = \<lparr>ref_id = replaceSpaces (toLowerCase (c_category r)),
                    ref_name = c_category r\<rparr>,
      demandQuantity = Fin 0, regionalSuitability = []\<rparr>"

definition suitabilityEntry :: "canonical \<Rightarrow> regionFact" where
  "suitabilityEntry r =
     \<lparr>geography = ''India'', district = c_district r, rf_state = c_state r,
      suitability = (if c_suitability r = [] then ''Medium'' else c_suitability r)\<rparr>"

text \<open>Lines 252-270: the region fact is pushed unless it is there, the quantity is added.\<close>

definition addObservation :: "canonical \<Rightarrow> crop \<Rightarrow> crop" where
  "addObservation r c =
     (let entry = suitabilityEntry r;
          existingSuitability =
            find (\<lambda>s. district s = c_district r \<and> suitability s = suitability entry)
              (regionalSuitability c)
      in c\<lparr>regionalSuitability :=
              (case existingSuitability of
                 None \<Rightarrow> regionalSuitability c @ [entry]
               | Some s \<Rightarrow> regionalSuitability c),
            demandQuantity := js_add (demandQuantity c) (c_quantity r)\<rparr>)"

definition cropKeyOf :: "string \<Rightarrow> string" where
  "cropKeyOf name = trim (toLowerCase name)"

text \<open>The second half of \<open>processRow\<close> (lines 201-270), on a row that passed the checks.\<close>

definition mergeRecord :: "canonical \<Rightarrow> builder \<Rightarrow> builder" where
  "mergeRecord r b =
     (let cropKey = cropKeyOf (c_cropName r);
          isNew = (lookupCrop b (c_state r) (c_category r) cropKey = None)
      in \<lparr>stateDataMap =
             upsert (c_state r) (newStateData (c_state r))
               (\<lambda>sd. sd\<lparr>categoriesMap :=
                  upsert (c_category r) (newCategoryData (c_category r))
                    (\<lambda>cd. cd\<lparr>cropsMap :=
                       upsert cropKey (newCrop (nextCropId b) r) (addObservation r)
                         (cropsMap cd)\<rparr>)
                    (categoriesMap sd)\<rparr>)
               (stateDataMap b),
           nextCropId = (if isNew then Suc (nextCropId b) else nextCropId b)\<rparr>)"

definition processRow :: "row \<Rightarrow> string \<Rightarrow> builder \<Rightarrow> builder" where
  "processRow r cropNameFromFile b =
     (case normalizeRow r cropNameFromFile of
        None \<Rightarrow> b
      | Some c \<Rightarrow> mergeRecord c b)"

text \<open>
  The rows arrive from the files' streams in some interleaving: the input is a sequence of
  rows, each with the crop name of its file.
\<close>

definition processRows :: "(row \<times> string) list \<Rightarrow> builder" where
  "processRows rows = fold (\<lambda>(r, f). processRow r f) rows initBuilder"

section \<open>preprocess.js: the snapshot\<close>

record category =
  cat_name :: string
  cat_count :: nat
  crops :: "crop list"

record ('c, 's) stateEntry =
  state :: string
  categories :: "'c list"
  summary :: 's

type_synonym snapshot = "(category, stateSummary) stateEntry list"

text \<open>
  The body of \<open>VALID_CATEGORIES.forEach\<close> in \<open>finalizeData\<close>: the categories pushed so far
  and the two counters of the state's summary.
\<close>

definition finalizeStep ::
  "stateData \<Rightarrow> category list \<times> nat \<times> jsnum \<Rightarrow> string \<Rightarrow> category list \<times> nat \<times> jsnum" where
  "finalizeStep sd acc categoryName =
     (case acc of (cats, tc, td) \<Rightarrow>
        (case map_of (categoriesMap sd) categoryName of
           None \<Rightarrow> (cats @ [\<lparr>cat_name = categoryName, cat_count = 0, crops = []\<rparr>], tc, td)
         | Some cd \<Rightarrow>
             (let cs = map snd (cropsMap cd)
              in (cats @ [\<lparr>cat_name = cd_name cd, cat_count = length cs, crops = cs\<rparr>],
                  tc + length cs,
                  foldl (\<lambda>t c. js_add t (demandQuantity c)) td cs))))"

text \<open>\<open>now\<close> is the value of \<open>new Date().toISOString()\<close> read for this state.\<close>

definition finalizeState :: "string \<Rightarrow> stateData \<Rightarrow> (category, stateSummary) stateEntry" where
  "finalizeState now sd =
     (case foldl (finalizeStep sd) ([], 0, Fin 0) VALID_CATEGORIES of (cats, tc, td) \<Rightarrow>
        \<lparr>state = sd_state sd, categories = cats,
         summary = \<lparr>totalCategories = length VALID_CATEGORIES, totalCrops = tc,
                    totalDemand = td, unit = unit (sd_summary sd), lastUpdated = now\<rparr>\<rparr>)"

text \<open>\<open>clock i\<close> is the time read while the i-th state is finalized.\<close>

definition finalizeData :: "(nat \<Rightarrow> string) \<Rightarrow> builder \<Rightarrow> snapshot" where
  "finalizeData clock b =
     map (\<lambda>(i, (k, sd)). finalizeState (clock i) sd) (enumerate 0 (stateDataMap b))"

definition aggregate :: "(nat \<Rightarrow> string) \<Rightarrow> (row \<times> string) list \<Rightarrow> snapshot" where
  "aggregate clock rows = finalizeData clock (processRows rows)"

section \<open>server.js\<close>

text \<open>
  The content of \<open>demand.json\<close> as \<open>loadDemandData\<close> finds it: no file, a file that
  cannot be read or parsed, or a parsed snapshot.
\<close>

datatype demandFile = FileMissing | FileUnreadable | FileContent snapshot

text \<open>
  The variable \<open>demandData\<close>: \<open>None\<close> is its initial \<open>null\<close>. \<open>loadDemandData\<close> gives the
  value it has once the server has started.
\<close>

definition loadDemandData :: "demandFile \<Rightarrow> snapshot option" where
  "loadDemandData f =
     (case f of
        FileContent d \<Rightarrow> Some d
      | FileMissing \<Rightarrow> Some []
      | FileUnreadable \<Rightarrow> Some [])"

text \<open>
  The responses of the handlers by status code. The bodies of the error responses are fixed
  messages. Status 500 answers an exception in a handler; on snapshots of the shape
  \<open>finalizeData\<close> writes no handler raises one. Each handler answers 503 on
  \<open>!demandData || demandData.length === 0\<close>, before it reads anything else of the data.
\<close>

datatype 'a response = BadRequest400 | Unavailable503 | NotFound404 | Ok200 'a

text \<open>
  \<open>req.query.x ? req.query.x.trim() : null\<close>, and the test \<open>filter && name.toLowerCase() !==
  filter.toLowerCase()\<close> that skips a state or category.
\<close>

definition queryFilter :: "string option \<Rightarrow> string option" where
  "queryFilter q = (case q of None \<Rightarrow> None | Some s \<Rightarrow> if s = [] then None else Some (trim s))"

definition filteredOut :: "string option \<Rightarrow> string \<Rightarrow> bool" where
  "filteredOut flt name =
     (case flt of
        None \<Rightarrow> False
      | Some f \<Rightarrow> f \<noteq> [] \<and> toLowerCase name \<noteq> toLowerCase f)"

definition filterOrAll :: "string option \<Rightarrow> string" where
  "filterOrAll flt = (case flt of None \<Rightarrow> ''all'' | Some f \<Rightarrow> if f = [] then ''all'' else f)"

record filters =
  flt_state :: string
  flt_category :: string

record citySummary = summary +
  totalStates :: nat

record cityResult =
  res_city :: string
  res_filters :: filters
  res_note :: string
  res_data :: "(category, summary) stateEntry list"
  res_summary :: citySummary

definition regionMatches :: "string \<Rightarrow> string \<Rightarrow> regionFact \<Rightarrow> bool" where
  "regionMatches cityName stateName region =
     (toLowerCase (district region) = toLowerCase cityName
      \<and> toLowerCase (rf_state region) = toLowerCase stateName)"

text \<open>The object built for a matching crop (lines 103-118).\<close>

definition cityCrop :: "string \<Rightarrow> string \<Rightarrow> crop \<Rightarrow> crop" where
  "cityCrop cityName stateName c =
     \<lparr>cropId = cropId c, cropName = cropName c, scientificName = scientificName c,
      categoryId = categoryId c, demandQuantity = demandQuantity c,
      regionalSuitability =
        (case find (regionMatches cityName stateName) (regionalSuitability c) of
           Some cityRegion \<Rightarrow> [cityRegion]
         | None \<Rightarrow> [])\<rparr>"

text \<open>
  The body of \<open>stateData.categories.forEach\<close>: the category pushed to
  \<open>stateResult.categories\<close>, if any.
\<close>

definition cityCategory :: "string \<Rightarrow> string \<Rightarrow> string option \<Rightarrow> category \<Rightarrow> category option" where
  "cityCategory cityName stateName categoryFilter cat =
     (if filteredOut categoryFilter (cat_name cat) then None
      else
        (let matchingCrops =
               filter (\<lambda>c. list_ex (regionMatches cityName stateName) (regionalSuitability c))
                 (crops cat)
         in if length matchingCrops > 0
            then (let cityCrops = map (cityCrop cityName stateName) matchingCrops
                  in Some \<lparr>cat_name = cat_name cat, cat_count = length cityCrops,
                           crops = cityCrops\<rparr>)
            else None))"

text \<open>The body of \<open>demandData.forEach\<close>: the state pushed to \<open>result.data\<close>, if any.\<close>

definition cityState ::
  "string \<Rightarrow> string option \<Rightarrow> string option \<Rightarrow> (category, 's) stateEntry
   \<Rightarrow> (category, summary) stateEntry option" where
  "cityState cityName stateFilter categoryFilter stateData =
     (if filteredOut stateFilter (state stateData) then None
      else
        (let cats = List.map_filter (cityCategory cityName (state stateData) categoryFilter)
                      (categories stateData)
         in if length cats > 0
            then Some \<lparr>state = state stateData, categories = cats,
                       summary =
                         \<lparr>totalCategories = length cats,
                          totalCrops = foldl (\<lambda>sum cat. sum + cat_count cat) 0 cats,
                          totalDemand =
                            foldl (\<lambda>sum cat.
                                     js_add sum (foldl (\<lambda>cropSum c. js_add cropSum (demandQuantity c))
                                                   (Fin 0) (crops cat)))
                              (Fin 0) cats,
                          unit = ''tons per week''\<rparr>\<rparr>
            else None))"

text \<open>\<open>GET /api/demand/city/:cityName\<close>, with the optional query parameters.\<close>

definition getCityDemand ::
  "snapshot option \<Rightarrow> string \<Rightarrow> string option \<Rightarrow> string option \<Rightarrow> cityResult response" where
  "getCityDemand demandData cityParam stateQuery categoryQuery =
     (let cityName = trim cityParam;
          stateFilter = queryFilter stateQuery;
          categoryFilter = queryFilter categoryQuery
      in if cityName = [] then BadRequest400
         else
           (case demandData of
              None \<Rightarrow> Unavailable503
            | Some d \<Rightarrow>
                if length d = 0 then Unavailable503
                else
                  (let dat = List.map_filter (cityState cityName stateFilter categoryFilter) d;
                       overallTotalCrops =
                         foldl (\<lambda>sum st. sum + totalCrops (summary st)) 0 dat;
                       overallTotalDemand =
                         foldl (\<lambda>sum st. js_add sum (numOrZero (totalDemand (summary st)))) (Fin 0) dat
                   in if length dat = 0 then NotFound404
                      else Ok200
                        \<lparr>res_city = cityName,
                         res_filters = \<lparr>flt_state = filterOrAll stateFilter,
                                        flt_category = filterOrAll categoryFilter\<rparr>,
                         res_note = ''demandQuantity represents the total demand for this crop across all districts in the state, not just this city'',
                         res_data = dat,
                         res_summary =
                           \<lparr>totalCategories =
                              foldl (\<lambda>sum st. sum + totalCategories (summary st)) 0 dat,
                            totalCrops = overallTotalCrops,
                            totalDemand = overallTotalDemand,
                            unit = ''tons per week'',
                            totalStates = length dat\<rparr>\<rparr>)))"

text \<open>
  A JavaScript \<open>Set\<close> of strings: its elements in insertion order, each once; its \<open>size\<close>
  is the length of the list.
\<close>

definition setAdd :: "string \<Rightarrow> string list \<Rightarrow> string list" where
  "setAdd x xs = (if x \<in> set xs then xs else xs @ [x])"

record citiesList =
  cl_totalCities :: nat
  cl_cities :: "string list"

text \<open>
  \<open>GET /api/demand/cities\<close>. \<open>Array.prototype.sort\<close> without a comparator orders strings by
  their code units.
\<close>

definition allDistricts :: "snapshot \<Rightarrow> string list" where
  "allDistricts d =
     fold (\<lambda>stateData acc.
        fold (\<lambda>cat acc.
           fold (\<lambda>c acc.
              fold (\<lambda>region acc. if district region \<noteq> [] then setAdd (district region) acc else acc)
                (regionalSuitability c) acc)
             (crops cat) acc)
          (categories stateData) acc)
       d []"

definition getCities :: "snapshot option \<Rightarrow> citiesList response" where
  "getCities demandData =
     (case demandData of
        None \<Rightarrow> Unavailable503
      | Some d \<Rightarrow>
          if length d = 0 then Unavailable503
          else (let cs = sort (allDistricts d)
                in Ok200 \<lparr>cl_totalCities = length cs, cl_cities = cs\<rparr>))"

text \<open>
  \<open>GET /api/demand/all-cities\<close>: the values of the nested \<open>Map\<close>s of \<open>citiesMap\<close>, and the
  entries of the response.
\<close>

record cityCategoryData =
  ccd_name :: string
  ccd_crops :: "crop list"

record cityStateData =
  csd_state :: string
  csd_categories :: "(string \<times> cityCategoryData) list"

record cityData =
  cd_city :: string
  cd_states :: "(string \<times> cityStateData) list"

record cityCategoryEntry = category +
  cat_totalDemand :: jsnum

record cityEntry =
  city :: string
  states :: "(cityCategoryEntry, summary) stateEntry list"
  city_summary :: citySummary

record allCities =
  ac_totalCities :: nat
  ac_cities :: "cityEntry list"

text \<open>
  The change of \<open>existingCrop\<close>, the first crop of the list with the identifier: the region
  is pushed unless one with its district and state is there.
\<close>

fun addRegionToCrop :: "nat \<Rightarrow> regionFact \<Rightarrow> crop list \<Rightarrow> crop list" where
  "addRegionToCrop cid region [] = []"
| "addRegionToCrop cid region (c # cs) =
     (if cropId c = cid
      then (if list_ex (\<lambda>r. district r = district region \<and> rf_state r = rf_state region)
                  (regionalSuitability c)
            then c
            else c\<lparr>regionalSuitability := regionalSuitability c @ [region]\<rparr>) # cs
      else c # addRegionToCrop cid region cs)"

text \<open>Lines 530-554: what one region of a crop does to the crops of its bucket.\<close>

definition addCityCrop :: "crop \<Rightarrow> regionFact \<Rightarrow> crop list \<Rightarrow> crop list" where
  "addCityCrop c region cs =
     (let existingCrop = find (\<lambda>x. cropId x = cropId c) cs
      in if js_gt (demandQuantity c) (Fin 0)
         then (case existingCrop of
                 None \<Rightarrow> cs @ [\<lparr>cropId = cropId c, cropName = cropName c,
                                 scientificName = scientificName c, categoryId = categoryId c,
                                 demandQuantity = demandQuantity c,
                                 regionalSuitability = [region]\<rparr>]
               | Some e \<Rightarrow> addRegionToCrop (cropId c) region cs)
         else cs)"

text \<open>The body of \<open>crop.regionalSuitability.forEach\<close> (lines 494-555).\<close>

definition addRegion ::
  "category \<Rightarrow> crop \<Rightarrow> regionFact \<Rightarrow> (string \<times> cityData) list \<Rightarrow> (string \<times> cityData) list" where
  "addRegion cat c region citiesMap =
     (let cityName = district region;
          stateName = rf_state region
      in if cityName = [] then citiesMap
         else
           upsert cityName \<lparr>cd_city = cityName, cd_states = []\<rparr>
             (\<lambda>cityData. cityData\<lparr>cd_states :=
                upsert stateName \<lparr>csd_state = stateName, csd_categories = []\<rparr>
                  (\<lambda>stateDataForCity. stateDataForCity\<lparr>csd_categories :=
                     upsert (cat_name cat) \<lparr>ccd_name = cat_name cat, ccd_crops = []\<rparr>
                       (\<lambda>categoryData. categoryData\<lparr>ccd_crops :=
                          addCityCrop c region (ccd_crops categoryData)\<rparr>)
                       (csd_categories stateDataForCity)\<rparr>)
                  (cd_states cityData)\<rparr>)
             citiesMap)"

definition buildCitiesMap :: "snapshot \<Rightarrow> (string \<times> cityData) list" where
  "buildCitiesMap d =
     fold (\<lambda>stateData m.
        fold (\<lambda>cat m.
           fold (\<lambda>c m. fold (addRegion cat c) (regionalSuitability c) m) (crops cat) m)
          (categories stateData) m)
       d []"

text \<open>The category pushed for an entry of a state's \<open>categories\<close> map, if any.\<close>

definition cityCategoryEntryOf :: "string \<times> cityCategoryData \<Rightarrow> cityCategoryEntry option" where
  "cityCategoryEntryOf p =
     (case p of (categoryName, categoryData) \<Rightarrow>
        (let validCrops = filter (\<lambda>c. js_gt (demandQuantity c) (Fin 0)) (ccd_crops categoryData)
         in if length validCrops > 0
            then Some \<lparr>cat_name = categoryName, cat_count = length validCrops,
                       crops = validCrops,
                       cat_totalDemand =
                         foldl (\<lambda>sum c. js_add sum (demandQuantity c)) (Fin 0) validCrops\<rparr>
            else None))"

definition cityStateEntryOf ::
  "string \<times> cityStateData \<Rightarrow> (cityCategoryEntry, summary) stateEntry option" where
  "cityStateEntryOf p =
     (case p of (stateName, stateData) \<Rightarrow>
        (let cats = List.map_filter cityCategoryEntryOf (csd_categories stateData)
         in if length cats > 0
            then Some \<lparr>state = stateName, categories = cats,
                       summary =
                         \<lparr>totalCategories = length cats,
                          totalCrops = foldl (\<lambda>sum cat. sum + cat_count cat) 0 cats,
                          totalDemand = foldl (\<lambda>sum cat. js_add sum (cat_totalDemand cat)) (Fin 0) cats,
                          unit = ''tons per week''\<rparr>\<rparr>
            else None))"

text \<open>
  Lines 622-649: the \<open>Set\<close> of the category names under a city, filled state by state, and
  the city's entry with its summary.
\<close>

definition cityCategoryNames :: "(cityCategoryEntry, summary) stateEntry list \<Rightarrow> string list" where
  "cityCategoryNames sts =
     fold (\<lambda>st acc. fold (\<lambda>cat acc. setAdd (cat_name cat) acc) (categories st) acc) sts []"

definition cityEntryOf :: "string \<times> cityData \<Rightarrow> cityEntry option" where
  "cityEntryOf p =
     (case p of (cityName, cityData) \<Rightarrow>
        (let sts = List.map_filter cityStateEntryOf (cd_states cityData)
         in if length sts > 0
            then Some \<lparr>city = cityName, states = sts,
                       city_summary =
                         \<lparr>totalCategories = length (cityCategoryNames sts),
                          totalCrops = foldl (\<lambda>sum st. sum + totalCrops (summary st)) 0 sts,
                          totalDemand =
                            foldl (\<lambda>sum st. js_add sum (numOrZero (totalDemand (summary st))))
                              (Fin 0) sts,
                          unit = ''tons per week'',
                          totalStates = length sts\<rparr>\<rparr>
            else None))"

text \<open>
  \<open>result.cities.sort((a, b) => a.city.localeCompare(b.city))\<close>. The collation of
  \<open>localeCompare\<close> belongs to the host, so it is a parameter; the sort is stable.
\<close>

fun insertCity :: "(string \<Rightarrow> string \<Rightarrow> int) \<Rightarrow> cityEntry \<Rightarrow> cityEntry list \<Rightarrow> cityEntry list" where
  "insertCity localeCompare x [] = [x]"
| "insertCity localeCompare x (y # ys) =
     (if localeCompare (city x) (city y) \<le> 0 then x # y # ys
      else y # insertCity localeCompare x ys)"

definition sortCities :: "(string \<Rightarrow> string \<Rightarrow> int) \<Rightarrow> cityEntry list \<Rightarrow> cityEntry list" where
  "sortCities localeCompare xs = foldr (insertCity localeCompare) xs []"

definition getAllCities ::
  "(string \<Rightarrow> string \<Rightarrow> int) \<Rightarrow> snapshot option \<Rightarrow> allCities response" where
  "getAllCities localeCompare demandData =
     (case demandData of
        None \<Rightarrow> Unavailable503
      | Some d \<Rightarrow>
          if length d = 0 then Unavailable503
          else (let citiesMap = buildCitiesMap d
                in Ok200 \<lparr>ac_totalCities = length citiesMap,
                          ac_cities = sortCities localeCompare
                                        (List.map_filter cityEntryOf citiesMap)\<rparr>))"

section \<open>Views and invariants used by the proofs\<close>

text \<open>
  The identity of a region fact within a crop, and the invariants that \<open>processRow\<close> keeps
  on the nested maps: keys are not repeated, each value sits under its own key, each crop
  has the category reference of its category, no two of its facts share an identity, and
  its facts record its state.
\<close>

definition regionKey :: "regionFact \<Rightarrow> string \<times> string" where
  "regionKey s = (district s, suitability s)"

definition crop_ok :: "string \<Rightarrow> string \<Rightarrow> string \<Rightarrow> crop \<Rightarrow> bool" where
  "crop_ok st cat key c =
     (cropKeyOf (cropName c) = key
      \<and> categoryId c = \<lparr>ref_id = replaceSpaces (toLowerCase cat), ref_name = cat\<rparr>
      \<and> distinct (map regionKey (regionalSuitability c))
      \<and> (\<forall>s \<in> set (regionalSuitability c). rf_state s = st \<and> geography s = ''India''))"

definition category_ok :: "string \<Rightarrow> string \<Rightarrow> categoryData \<Rightarrow> bool" where
  "category_ok st cat cd =
     (cd_name cd = cat \<and> cat \<in> set VALID_CATEGORIES \<and> distinct (map fst (cropsMap cd))
      \<and> (\<forall>(k, c) \<in> set (cropsMap cd). crop_ok st cat k c))"

definition state_ok :: "string \<Rightarrow> stateData \<Rightarrow> bool" where
  "state_ok st sd =
     (sd_state sd = st \<and> unit (sd_summary sd) = ''tons per week''
      \<and> distinct (map fst (categoriesMap sd))
      \<and> (\<forall>(c, cd) \<in> set (categoriesMap sd). category_ok st c cd))"

definition builder_ok :: "builder \<Rightarrow> bool" where
  "builder_ok b =
     (distinct (map fst (stateDataMap b)) \<and> (\<forall>(s, sd) \<in> set (stateDataMap b). state_ok s sd))"

text \<open>
  The rows that pass the checks of \<open>processRow\<close>, in their order, as canonical records; the
  key (state, category, crop key) under which a record is merged; the aggregation state
  after a sequence of records.
\<close>

definition accepted :: "(row \<times> string) list \<Rightarrow> canonical list" where
  "accepted rows = List.map_filter (\<lambda>(r, f). normalizeRow r f) rows"

definition groupKey :: "canonical \<Rightarrow> string \<times> string \<times> string" where
  "groupKey r = (c_state r, c_category r, cropKeyOf (c_cropName r))"

definition build :: "canonical list \<Rightarrow> builder" where
  "build recs = fold mergeRecord recs initBuilder"

text \<open>
  The category that \<open>finalizeData\<close> pushes for a category name; the crops of a snapshot in
  their order, each with the state and the category that contain it; the same for one
  state of the aggregation state and for one state of a snapshot.
\<close>

definition finalizeCategory :: "stateData \<Rightarrow> string \<Rightarrow> category" where
  "finalizeCategory sd categoryName =
     (case map_of (categoriesMap sd) categoryName of
        None \<Rightarrow> \<lparr>cat_name = categoryName, cat_count = 0, crops = []\<rparr>
      | Some cd \<Rightarrow> \<lparr>cat_name = cd_name cd, cat_count = length (cropsMap cd),
                    crops = map snd (cropsMap cd)\<rparr>)"

definition snapshotCrops :: "(category, 's) stateEntry list \<Rightarrow> (string \<times> string \<times> crop) list" where
  "snapshotCrops snap =
     concat (map (\<lambda>s. concat (map (\<lambda>c. map (\<lambda>cr. (state s, cat_name c, cr)) (crops c))
                                    (categories s))) snap)"

definition stateCrops :: "stateData \<Rightarrow> (string \<times> string \<times> crop) list" where
  "stateCrops sd =
     concat (map (\<lambda>n. map (\<lambda>cr. (sd_state sd, cat_name (finalizeCategory sd n), cr))
                          (crops (finalizeCategory sd n))) VALID_CATEGORIES)"

definition entryCrops :: "(category, 's) stateEntry \<Rightarrow> (string \<times> string \<times> crop) list" where
  "entryCrops st =
     concat (map (\<lambda>c. map (\<lambda>cr. (state st, cat_name c, cr)) (crops c)) (categories st))"

text \<open>
  The group of a crop of a snapshot: its state, category and crop key. The records of a
  group, in their order.
\<close>

definition cropGroup :: "string \<times> string \<times> crop \<Rightarrow> string \<times> string \<times> string" where
  "cropGroup t = (case t of (s, c, cr) \<Rightarrow> (s, c, cropKeyOf (cropName cr)))"

text \<open>The groups of the crops of a snapshot with their demand, in the order of the snapshot.\<close>

definition cropDemands ::
  "(category, 's) stateEntry list \<Rightarrow> ((string \<times> string \<times> string) \<times> jsnum) list" where
  "cropDemands snap = map (\<lambda>t. (cropGroup t, demandQuantity (snd (snd t)))) (snapshotCrops snap)"

definition groupRows :: "canonical list \<Rightarrow> string \<times> string \<times> string \<Rightarrow> canonical list" where
  "groupRows recs g = filter (\<lambda>r. groupKey r = g) recs"

text \<open>
  The sum of a list of numbers as the code computes it: starting from 0, each number is
  added to the sum so far, and every addition rounds.
\<close>

definition sumInOrder :: "jsnum list \<Rightarrow> jsnum" where
  "sumInOrder xs = foldl js_add (Fin 0) xs"

text \<open>
  The value of a finite number, and the value of the quantity of a record. No sum of the
  quantities of a sequence of records is rounded when every quantity is finite and the sum
  of every subsequence of the values is a double.
\<close>

definition isFiniteNumber :: "jsnum \<Rightarrow> bool" where
  "isFiniteNumber x = (case x of Fin a \<Rightarrow> True | _ \<Rightarrow> False)"

definition finiteValue :: "jsnum \<Rightarrow> rat" where
  "finiteValue x = (case x of Fin a \<Rightarrow> a | _ \<Rightarrow> 0)"

definition quantityValue :: "canonical \<Rightarrow> rat" where
  "quantityValue r = finiteValue (c_quantity r)"

definition exactSums :: "canonical list \<Rightarrow> bool" where
  "exactSums recs =
     (list_all (\<lambda>r. isFiniteNumber (c_quantity r)) recs
      \<and> (\<forall>qs \<in> set (subseqs (map quantityValue recs)).
            roundDouble (sum_list qs) = Fin (sum_list qs)))"

text \<open>A list without its repetitions: each element stays at its first occurrence.\<close>

definition firstOccurrences :: "'a list \<Rightarrow> 'a list" where
  "firstOccurrences xs = rev (remdups (rev xs))"

text \<open>
  The crops of a snapshot that a projection query selects, each with its state and
  category, and what the query emits for them.
\<close>

definition selectedCrop ::
  "string \<Rightarrow> string option \<Rightarrow> string option \<Rightarrow> string \<times> string \<times> crop \<Rightarrow> bool" where
  "selectedCrop cityName stateFilter categoryFilter t =
     (case t of (s, c, cr) \<Rightarrow>
        \<not> filteredOut stateFilter s \<and> \<not> filteredOut categoryFilter c
        \<and> list_ex (regionMatches cityName s) (regionalSuitability cr))"

definition retainedCrops ::
  "string \<Rightarrow> string option \<Rightarrow> string option \<Rightarrow> (category, 's) stateEntry list
   \<Rightarrow> (string \<times> string \<times> crop) list" where
  "retainedCrops cityName stateFilter categoryFilter snap =
     filter (selectedCrop cityName stateFilter categoryFilter) (snapshotCrops snap)"

definition emittedCrop :: "string \<Rightarrow> string \<times> string \<times> crop \<Rightarrow> string \<times> string \<times> crop" where
  "emittedCrop cityName t = (case t of (s, c, cr) \<Rightarrow> (s, c, cityCrop cityName s cr))"

text \<open>The crops of a response of the district projection; none when it is not a result.\<close>

definition emittedCrops :: "cityResult response \<Rightarrow> (string \<times> string \<times> crop) list" where
  "emittedCrops resp = (case resp of Ok200 res \<Rightarrow> snapshotCrops (res_data res) | _ \<Rightarrow> [])"

text \<open>
  The region facts of a snapshot are scoped: each fact records the name of the state that
  contains its crop. Every snapshot of \<open>finalizeData\<close> is scoped.
\<close>

definition regionsScoped :: "(category, 's) stateEntry list \<Rightarrow> bool" where
  "regionsScoped snap =
     (\<forall>t \<in> set (snapshotCrops snap). \<forall>r \<in> set (regionalSuitability (snd (snd t))).
        rf_state r = fst t)"

section \<open>The conditions of the specification\<close>

text \<open>
  Conditions written after the words of the specification, to be compared with what the
  code computes.
\<close>

text \<open>
  The condition under which the specification lets the normalizer reject a row: state,
  category or crop name missing, a quantity that parses to at most 0, or a category that
  matches neither the allowed set (ignoring case) nor the fallback classifier.
\<close>

definition spec_rejects :: "row \<Rightarrow> string \<Rightarrow> bool" where
  "spec_rejects r cropNameFromFile =
     (rowState r = [] \<or> rowCategory r = [] \<or> rowCropName r cropNameFromFile = []
      \<or> js_le (rowQuantity r) (Fin 0)
      \<or> ((\<forall>cat \<in> set VALID_CATEGORIES. toLowerCase cat \<noteq> toLowerCase (rowCategory r))
          \<and> mapCategoryToValid (rowCategory r) (rowCropName r cropNameFromFile) = None))"

text \<open>
  The first alias whose raw value is present and not the empty string, else the default.
\<close>

definition firstNonEmpty :: "string option list \<Rightarrow> string \<Rightarrow> string" where
  "firstNonEmpty aliases d =
     (case find (\<lambda>a. a \<noteq> None \<and> a \<noteq> Some []) aliases of
        Some (Some s) \<Rightarrow> s
      | _ \<Rightarrow> d)"

text \<open>
  The selection of a crop by a district projection: it passes the state and category filters and has a
  region fact whose district equals the queried district ignoring case and whose recorded
  state equals the name of the containing state.
\<close>

definition spec_selected ::
  "string \<Rightarrow> string option \<Rightarrow> string option \<Rightarrow> string \<times> string \<times> crop \<Rightarrow> bool" where
  "spec_selected cityName stateFilter categoryFilter t =
     (case t of (s, c, cr) \<Rightarrow>
        \<not> filteredOut stateFilter s \<and> \<not> filteredOut categoryFilter c
        \<and> (\<exists>r \<in> set (regionalSuitability cr).
              toLowerCase (district r) = toLowerCase cityName \<and> rf_state r = s))"

text \<open>
  The selection as amended: the recorded state of the fact is compared with the name of the
  containing state ignoring case, like the district.
\<close>

definition selected_ignoring_case ::
  "string \<Rightarrow> string option \<Rightarrow> string option \<Rightarrow> string \<times> string \<times> crop \<Rightarrow> bool" where
  "selected_ignoring_case cityName stateFilter categoryFilter t =
     (case t of (s, c, cr) \<Rightarrow>
        \<not> filteredOut stateFilter s \<and> \<not> filteredOut categoryFilter c
        \<and> (\<exists>r \<in> set (regionalSuitability cr).
              toLowerCase (district r) = toLowerCase cityName
              \<and> toLowerCase (rf_state r) = toLowerCase s))"

section \<open>Example inputs and their results\<close>

text \<open>
  The scenario of the specification (two rows for tomatoes in Karnataka) and further rows,
  with the values that the code computes for them; each value is checked by evaluation
  below.
\<close>

definition clock0 :: "nat \<Rightarrow> string" where
  "clock0 i = ''2024-01-01T00:00:00.000Z''"

definition tomatoBangalore :: row where
  "tomatoBangalore =
     map_of [(''state'', ''Karnataka''), (''category'', ''Vegetables''),
             (''district'', ''Bangalore''), (''demand_quantity'', ''100''),
             (''suitability'', ''High'')]"

definition tomatoMysore :: row where
  "tomatoMysore =
     map_of [(''state'', ''Karnataka''), (''category'', ''Vegetables''),
             (''district'', ''Mysore''), (''demand_quantity'', ''50''),
             (''suitability'', ''Medium'')]"

definition scenarioRows :: "(row \<times> string) list" where
  "scenarioRows = [(tomatoBangalore, ''Tomato''), (tomatoMysore, ''Tomato'')]"

definition scenarioTomato :: crop where
  "scenarioTomato =
     \<lparr>cropId = 0, cropName = ''Tomato'', scientificName = [],
      categoryId = \<lparr>ref_id = ''vegetables'', ref_name = ''Vegetables''\<rparr>,
      demandQuantity = Fin 150,
      regionalSuitability =
        [\<lparr>geography = ''India'', district = ''Bangalore'', rf_state = ''Karnataka'',
          suitability = ''High''\<rparr>,
         \<lparr>geography = ''India'', district = ''Mysore'', rf_state = ''Karnataka'',
          suitability = ''Medium''\<rparr>]\<rparr>"

definition emptyCategory :: "string \<Rightarrow> category" where
  "emptyCategory n = \<lparr>cat_name = n, cat_count = 0, crops = []\<rparr>"

definition scenarioState :: "(category, stateSummary) stateEntry" where
  "scenarioState =
     \<lparr>state = ''Karnataka'',
      categories = \<lparr>cat_name = ''Vegetables'', cat_count = 1, crops = [scenarioTomato]\<rparr>
                   # map emptyCategory (tl VALID_CATEGORIES),
      summary = \<lparr>totalCategories = 15, totalCrops = 1, totalDemand = Fin 150,
                 unit = ''tons per week'', lastUpdated = ''2024-01-01T00:00:00.000Z''\<rparr>\<rparr>"

definition tomatoBangaloreLow :: row where
  "tomatoBangaloreLow =
     map_of [(''State Name'', ''Karnataka''), (''Group'', ''vegetables''),
             (''District Name'', ''Bangalore''), (''Arrivals (Tonnes)'', ''25''),
             (''Suitability'', ''Low'')]"

definition dedupRows :: "(row \<times> string) list" where
  "dedupRows =
     [(tomatoBangalore, ''Tomato''), (tomatoBangaloreLow, ''Tomato''), (tomatoBangalore, ''Tomato'')]"

definition dedupTomato :: crop where
  "dedupTomato =
     \<lparr>cropId = 0, cropName = ''Tomato'', scientificName = [],
      categoryId = \<lparr>ref_id = ''vegetables'', ref_name = ''Vegetables''\<rparr>,
      demandQuantity = Fin 225,
      regionalSuitability =
        [\<lparr>geography = ''India'', district = ''Bangalore'', rf_state = ''Karnataka'',
          suitability = ''High''\<rparr>,
         \<lparr>geography = ''India'', district = ''Bangalore'', rf_state = ''Karnataka'',
          suitability = ''Low''\<rparr>]\<rparr>"

definition zeroQuantityRow :: row where
  "zeroQuantityRow =
     map_of [(''state'', ''Karnataka''), (''category'', ''Vegetables''),
             (''district'', ''Bangalore''), (''demand_quantity'', ''0''),
             (''suitability'', ''High'')]"

definition blankStateRow :: row where
  "blankStateRow =
     map_of [(''state'', ''   ''), (''State Name'', ''Karnataka''),
             (''category'', ''Vegetables''), (''district'', ''Bangalore''),
             (''demand_quantity'', ''100''), (''suitability'', ''High'')]"

definition tomatoSolanum :: row where
  "tomatoSolanum =
     map_of [(''state'', ''Karnataka''), (''category'', ''Vegetables''),
             (''scientific_name'', ''Solanum lycopersicum''),
             (''district'', ''Bangalore''), (''demand_quantity'', ''100''),
             (''suitability'', ''High'')]"

definition tomatoLycopersicon :: row where
  "tomatoLycopersicon =
     map_of [(''state'', ''Karnataka''), (''category'', ''Vegetables''),
             (''scientific_name'', ''Lycopersicon esculentum''),
             (''district'', ''Bangalore''), (''demand_quantity'', ''100''),
             (''suitability'', ''High'')]"

definition bangaloreHigh :: regionFact where
  "bangaloreHigh =
     \<lparr>geography = ''India'', district = ''Bangalore'', rf_state = ''Karnataka'',
      suitability = ''High''\<rparr>"

definition scenarioBangalore :: cityResult where
  "scenarioBangalore =
     \<lparr>res_city = ''Bangalore'',
      res_filters = \<lparr>flt_state = ''all'', flt_category = ''all''\<rparr>,
      res_note = ''demandQuantity represents the total demand for this crop across all districts in the state, not just this city'',
      res_data =
        [\<lparr>state = ''Karnataka'',
          categories =
            [\<lparr>cat_name = ''Vegetables'', cat_count = 1,
              crops = [scenarioTomato\<lparr>regionalSuitability := [bangaloreHigh]\<rparr>]\<rparr>],
          summary = \<lparr>totalCategories = 1, totalCrops = 1, totalDemand = Fin 150,
                     unit = ''tons per week''\<rparr>\<rparr>],
      res_summary = \<lparr>totalCategories = 1, totalCrops = 1, totalDemand = Fin 150,
                     unit = ''tons per week'', totalStates = 1\<rparr>\<rparr>"

text \<open>A comparison by code units, for evaluating examples.\<close>

definition compareCodeUnits :: "string \<Rightarrow> string \<Rightarrow> int" where
  "compareCodeUnits a b = (if a < b then - 1 else if a = b then 0 else 1)"

definition twoStateSnapshot :: snapshot where
  "twoStateSnapshot =
     aggregate clock0
       [(map_of [(''state'', ''Telangana''), (''category'', ''Vegetables''),
                 (''district'', ''Hyderabad''), (''demand_quantity'', ''10'')], ''Tomato''),
        (map_of [(''state'', ''Karnataka''), (''category'', ''Vegetables''),
                 (''district'', ''Hyderabad''), (''demand_quantity'', ''20'')], ''Onion''),
        (map_of [(''state'', ''Karnataka''), (''category'', ''Fruits''),
                 (''district'', ''Hyderabad''), (''demand_quantity'', ''5'')], ''Mango'')]"

definition hyderabadFact :: "string \<Rightarrow> regionFact" where
  "hyderabadFact st =
     \<lparr>geography = ''India'', district = ''Hyderabad'', rf_state = st, suitability = ''Medium''\<rparr>"

definition hyderabadEntry :: cityEntry where
  "hyderabadEntry =
     \<lparr>city = ''Hyderabad'',
      states =
        [\<lparr>state = ''Telangana'',
          categories =
            [\<lparr>cat_name = ''Vegetables'', cat_count = 1,
              crops = [\<lparr>cropId = 0, cropName = ''Tomato'', scientificName = [],
                        categoryId = \<lparr>ref_id = ''vegetables'', ref_name = ''Vegetables''\<rparr>,
                        demandQuantity = Fin 10,
                        regionalSuitability = [hyderabadFact ''Telangana'']\<rparr>],
              cat_totalDemand = Fin 10\<rparr>],
          summary = \<lparr>totalCategories = 1, totalCrops = 1, totalDemand = Fin 10,
                     unit = ''tons per week''\<rparr>\<rparr>,
         \<lparr>state = ''Karnataka'',
          categories =
            [\<lparr>cat_name = ''Vegetables'', cat_count = 1,
              crops = [\<lparr>cropId = 1, cropName = ''Onion'', scientificName = [],
                        categoryId = \<lparr>ref_id = ''vegetables'', ref_name = ''Vegetables''\<rparr>,
                        demandQuantity = Fin 20,
                        regionalSuitability = [hyderabadFact ''Karnataka'']\<rparr>],
              cat_totalDemand = Fin 20\<rparr>,
             \<lparr>cat_name = ''Fruits'', cat_count = 1,
              crops = [\<lparr>cropId = 2, cropName = ''Mango'', scientificName = [],
                        categoryId = \<lparr>ref_id = ''fruits'', ref_name = ''Fruits''\<rparr>,
                        demandQuantity = Fin 5,
                        regionalSuitability = [hyderabadFact ''Karnataka'']\<rparr>],
              cat_totalDemand = Fin 5\<rparr>],
          summary = \<lparr>totalCategories = 2, totalCrops = 2, totalDemand = Fin 25,
                     unit = ''tons per week''\<rparr>\<rparr>],
      city_summary = \<lparr>totalCategories = 2, totalCrops = 3, totalDemand = Fin 35,
                      unit = ''tons per week'', totalStates = 2\<rparr>\<rparr>"

text \<open>The crop name and scientific name of every crop of a snapshot, in order.\<close>

definition cropIdentities :: "(category, 's) stateEntry list \<Rightarrow> (string \<times> string) list" where
  "cropIdentities snap = map (\<lambda>t. (cropName (snd (snd t)), scientificName (snd (snd t)))) (snapshotCrops snap)"

definition sameFileRows :: "(row \<times> string) list" where
  "sameFileRows = [(tomatoSolanum, ''Tomato''), (tomatoLycopersicon, ''Tomato'')]"

definition twoFilesRows :: "(row \<times> string) list" where
  "twoFilesRows = [(tomatoBangalore, ''Tomato''), (tomatoMysore, ''TOMATO'')]"

text \<open>
  A snapshot file in which a fact spells the name of its state in upper case.
\<close>

definition upperCaseFact :: regionFact where
  "upperCaseFact =
     \<lparr>geography = ''India'', district = ''Bangalore'', rf_state = ''KARNATAKA'',
      suitability = ''High''\<rparr>"

definition upperCaseTomato :: crop where
  "upperCaseTomato = scenarioTomato\<lparr>regionalSuitability := [upperCaseFact]\<rparr>"

definition upperCaseSnapshot :: snapshot where
  "upperCaseSnapshot =
     [\<lparr>state = ''Karnataka'',
       categories = [\<lparr>cat_name = ''Vegetables'', cat_count = 1, crops = [upperCaseTomato]\<rparr>],
       summary = \<lparr>totalCategories = 1, totalCrops = 1, totalDemand = Fin 150,
                  unit = ''tons per week'', lastUpdated = ''2024-01-01T00:00:00.000Z''\<rparr>\<rparr>]"

text \<open>
  Rows whose quantities are \<open>2 ^ 53\<close>, 1 and 1: for one crop, and for two crops.
\<close>

definition quantityRow :: "string \<Rightarrow> row" where
  "quantityRow q =
     map_of [(''state'', ''Karnataka''), (''category'', ''Vegetables''),
             (''district'', ''Bangalore''), (''demand_quantity'', q),
             (''suitability'', ''High'')]"

definition roundedRows :: "(row \<times> string) list" where
  "roundedRows =
     [(quantityRow ''9007199254740992'', ''Tomato''), (quantityRow ''1'', ''Tomato''),
      (quantityRow ''1'', ''Tomato'')]"

definition regroupedRows :: "(row \<times> string) list" where
  "regroupedRows =
     [(quantityRow ''9007199254740992'', ''Tomato''), (quantityRow ''1'', ''Onion''),
      (quantityRow ''1'', ''Onion'')]"

section \<open>Properties of the string functions and of the classifier\<close>

lemma isWhitespace_lowerChar: "isWhitespace (lowerChar c) = isWhitespace c"
  unfolding isWhitespace_def lowerChar_def by (simp split: option.splits) 

lemma dropWhile_ws_lower:
  "dropWhile isWhitespace (toLowerCase s) = toLowerCase (dropWhile isWhitespace s)"
  unfolding toLowerCase_def by (induction s) (simp_all add: isWhitespace_lowerChar)

lemma trim_toLowerCase: "trim (toLowerCase s) = toLowerCase (trim s)"
proof -
  have "rev (toLowerCase s) = toLowerCase (rev s)" for s
    by (simp add: toLowerCase_def rev_map)
  then show ?thesis
    by (simp add: trim_def dropWhile_ws_lower)
qed

lemma dropWhile_fixed: "xs = [] \<or> \<not> P (hd xs) \<Longrightarrow> dropWhile P xs = xs"
  by (cases xs) auto

lemma trim_trim: "trim (trim s) = trim s"
proof -
  define t where "t = dropWhile isWhitespace s"
  define u where "u = rev (dropWhile isWhitespace (rev t))"
  have tu: "t = u @ rev (takeWhile isWhitespace (rev t))"
    unfolding u_def by (metis rev_append rev_rev_ident takeWhile_dropWhile_id)
  have t0: "t = [] \<or> \<not> isWhitespace (hd t)"
    unfolding t_def using hd_dropWhile[of isWhitespace s] by blast
  have u0: "u = [] \<or> \<not> isWhitespace (hd u)"
  proof (cases u)
    case Nil then show ?thesis by simp
  next
    case (Cons a v)
    with tu have "hd t = a" "t \<noteq> []" by (metis append_Cons list.sel(1), auto)
    with t0 Cons show ?thesis by simp
  qed
  have r0: "rev u = [] \<or> \<not> isWhitespace (hd (rev u))"
    unfolding u_def using hd_dropWhile[of isWhitespace "rev t"] by auto
  have "trim u = u"
    unfolding trim_def
    using dropWhile_fixed[of u isWhitespace, OF u0] dropWhile_fixed[of "rev u" isWhitespace, OF r0]
    by simp
  then show ?thesis by (simp add: trim_def u_def t_def)
qed

lemma find_SomeD: "find P xs = Some x \<Longrightarrow> x \<in> set xs \<and> P x"
  by (induction xs) (auto split: if_splits)

lemma mapCategoryToValid_valid:
  assumes "mapCategoryToValid g c = Some v"
  shows "v \<in> set VALID_CATEGORIES"
proof (cases "find (\<lambda>cat. toLowerCase (trim g) = toLowerCase cat) VALID_CATEGORIES")
  case (Some d)
  with assms have "v = d"
    by (simp add: mapCategoryToValid_def split: if_splits)
  with Some show ?thesis by (auto dest: find_SomeD)
next
  case None
  have "v \<in> {''Spices'', ''Cereals'', ''Pulses'', ''Oil Seeds'', ''Oils and Fats'',
              ''Fibre Crops'', ''Forest Products'', ''Flowers'', ''Dry Fruits'', ''Beverages'',
              ''Live Stock'', ''Drug and Narcotics'', ''Other''}"
    using assms unfolding mapCategoryToValid_def Let_def None
    by (simp split: if_splits)
  then show ?thesis unfolding VALID_CATEGORIES_def by auto
qed

lemma validCategoryOf_valid:
  "validCategoryOf g c = Some v \<Longrightarrow> v \<in> set VALID_CATEGORIES"
  unfolding validCategoryOf_def Let_def
  by (auto split: option.splits dest: find_SomeD mapCategoryToValid_valid)

section \<open>One step of the aggregation\<close>

lemma map_of_upsert:
  "map_of (upsert k d f al) = (map_of al)(k \<mapsto> f (case map_of al k of None \<Rightarrow> d | Some v \<Rightarrow> v))"
  by (induction al) (auto simp: fun_eq_iff)

lemma keys_upsert:
  "map fst (upsert k d f al) = (if k \<in> fst ` set al then map fst al else map fst al @ [k])"
  by (induction al) (auto simp: rev_image_eqI)

lemma distinct_upsert: "distinct (map fst al) \<Longrightarrow> distinct (map fst (upsert k d f al))"
  by (simp add: keys_upsert)

lemma upsert_all:
  assumes "(k', v') \<in> set (upsert k d f al)"
    and "\<And>k' v. (k', v) \<in> set al \<Longrightarrow> Q k' v"
    and "Q k (f d)"
    and "\<And>v. (k, v) \<in> set al \<Longrightarrow> Q k (f v)"
  shows "Q k' v'"
  using assms by (induction al) (auto split: if_splits)

lemma sum_upsert:
  fixes g :: "'v \<Rightarrow> 'a::comm_monoid_add"
  assumes "g (f d) = x" and "\<And>v. g (f v) = g v + x"
  shows "sum_list (map (\<lambda>p. g (snd p)) (upsert k d f al)) = sum_list (map (\<lambda>p. g (snd p)) al) + x"
  using assms by (induction al) (auto simp: ac_simps)

lemma addObservation_regions:
  assumes "crop_ok (c_state r) cat key c"
  shows "set (regionalSuitability (addObservation r c))
         = insert (suitabilityEntry r) (set (regionalSuitability c))"
proof (cases "find (\<lambda>s. district s = c_district r \<and> suitability s = suitability (suitabilityEntry r)) (regionalSuitability c)")
  case None
  then show ?thesis by (simp add: addObservation_def Let_def)
next
  case (Some s)
  then have s: "s \<in> set (regionalSuitability c)" "district s = c_district r"
    "suitability s = suitability (suitabilityEntry r)"
    by (auto dest: find_SomeD)
  with assms have "rf_state s = c_state r" "geography s = ''India''"
    by (auto simp: crop_ok_def)
  with s have "s = suitabilityEntry r"
    by (intro regionFact.equality) (simp_all add: suitabilityEntry_def)
  with s Some show ?thesis by (auto simp: addObservation_def Let_def)
qed

lemma addObservation_demand:
  "demandQuantity (addObservation r c) = js_add (demandQuantity c) (c_quantity r)"
  by (simp add: addObservation_def Let_def)

lemma addObservation_name: "cropName (addObservation r c) = cropName c"
  by (simp add: addObservation_def Let_def)

lemma addObservation_ok:
  assumes "crop_ok (c_state r) cat key c"
  shows "crop_ok (c_state r) cat key (addObservation r c)"
proof (cases "find (\<lambda>s. district s = c_district r \<and> suitability s = suitability (suitabilityEntry r)) (regionalSuitability c)")
  case None
  then have "regionKey (suitabilityEntry r) \<notin> regionKey ` set (regionalSuitability c)"
    by (auto simp: find_None_iff regionKey_def suitabilityEntry_def)
  with assms None show ?thesis
    by (auto simp: crop_ok_def addObservation_def Let_def suitabilityEntry_def)
next
  case (Some s)
  with assms show ?thesis
    by (auto simp: crop_ok_def addObservation_def Let_def)
qed

lemma newCrop_ok: "crop_ok st (c_category r) (cropKeyOf (c_cropName r)) (newCrop n r)"
  by (simp add: crop_ok_def newCrop_def)

lemma lookupCrop_merge:
  "lookupCrop (mergeRecord r b) s c k =
     (if (s, c, k) = groupKey r
      then Some (addObservation r (case lookupCrop b s c k of
                                     None \<Rightarrow> newCrop (nextCropId b) r
                                   | Some cr \<Rightarrow> cr))
      else lookupCrop b s c k)"
  unfolding lookupCrop_def mergeRecord_def Let_def groupKey_def
  by (auto simp: map_of_upsert newStateData_def newCategoryData_def split: option.splits)

lemma builder_ok_merge:
  assumes "builder_ok b" and "c_category r \<in> set VALID_CATEGORIES"
  shows "builder_ok (mergeRecord r b)"
proof -
  let ?k = "cropKeyOf (c_cropName r)"
  let ?fc = "\<lambda>cd. cd\<lparr>cropsMap := upsert ?k (newCrop (nextCropId b) r) (addObservation r) (cropsMap cd)\<rparr>"
  let ?fs = "\<lambda>sd. sd\<lparr>categoriesMap := upsert (c_category r) (newCategoryData (c_category r)) ?fc (categoriesMap sd)\<rparr>"
  have c: "category_ok (c_state r) (c_category r) (?fc cd)"
    if "category_ok (c_state r) (c_category r) cd" for cd
    using that unfolding category_ok_def
    by (auto simp: distinct_upsert intro: addObservation_ok newCrop_ok
             elim!: upsert_all[where Q = "crop_ok (c_state r) (c_category r)"])
  have c0: "category_ok (c_state r) (c_category r) (newCategoryData (c_category r))"
    using assms(2) by (simp add: category_ok_def newCategoryData_def)
  have s: "state_ok (c_state r) (?fs sd)" if "state_ok (c_state r) sd" for sd
    using that c c0 unfolding state_ok_def
    by (auto simp: distinct_upsert elim!: upsert_all[where Q = "category_ok (c_state r)"])
  have s0: "state_ok (c_state r) (newStateData (c_state r))"
    by (simp add: state_ok_def newStateData_def)
  show ?thesis
    using assms(1) s s0 unfolding builder_ok_def mergeRecord_def Let_def
    by (auto simp: distinct_upsert elim!: upsert_all[where Q = state_ok])
qed

section \<open>The aggregation state after any sequence of rows\<close>

lemma processRows_build: "processRows rows = build (accepted rows)"
proof -
  have "fold (\<lambda>(r, f). processRow r f) rows b = fold mergeRecord (accepted rows) b" for b
    unfolding accepted_def
    by (induction rows arbitrary: b)
       (auto simp: List.map_filter_simps processRow_def split: option.splits)
  then show ?thesis by (simp add: processRows_def build_def)
qed

lemma accepted_valid: "r \<in> set (accepted rows) \<Longrightarrow> c_category r \<in> set VALID_CATEGORIES"
  unfolding accepted_def List.map_filter_def normalizeRow_def Let_def
  by (auto split: if_splits option.splits)

lemma build_snoc: "build (recs @ [r]) = mergeRecord r (build recs)"
  by (simp add: build_def)

lemma builder_ok_build:
  "(\<And>r. r \<in> set recs \<Longrightarrow> c_category r \<in> set VALID_CATEGORIES) \<Longrightarrow> builder_ok (build recs)"
proof (induction recs rule: rev_induct)
  case Nil
  show ?case by (simp add: build_def initBuilder_def builder_ok_def)
next
  case (snoc r recs)
  then show ?case by (simp add: build_snoc builder_ok_merge)
qed

lemma builder_ok_processRows: "builder_ok (processRows rows)"
  by (simp add: processRows_build builder_ok_build accepted_valid)

lemma lookupCrop_build_None:
  "lookupCrop (build recs) s c k = None \<longleftrightarrow> (s, c, k) \<notin> groupKey ` set recs"
proof (induction recs rule: rev_induct)
  case Nil
  show ?case by (simp add: build_def initBuilder_def lookupCrop_def)
next
  case (snoc r recs)
  then show ?case by (auto simp: build_snoc lookupCrop_merge)
qed

lemma lookupCrop_ok:
  assumes "builder_ok b" and "lookupCrop b s c k = Some cr"
  shows "crop_ok s c k cr"
proof -
  from assms(2) obtain sd cd where
    sd: "map_of (stateDataMap b) s = Some sd" and
    cd: "map_of (categoriesMap sd) c = Some cd" and
    cr: "map_of (cropsMap cd) k = Some cr"
    by (auto simp: lookupCrop_def split: option.splits)
  from sd assms(1) have "state_ok s sd"
    by (auto simp: builder_ok_def dest!: map_of_SomeD)
  with cd have "category_ok s c cd"
    by (auto simp: state_ok_def dest!: map_of_SomeD)
  with cr show ?thesis
    by (auto simp: category_ok_def dest!: map_of_SomeD)
qed

lemma lookupCrop_build_Some:
  assumes "\<And>r. r \<in> set recs \<Longrightarrow> c_category r \<in> set VALID_CATEGORIES"
    and "lookupCrop (build recs) s c k = Some cr"
  shows "demandQuantity cr
           = foldl js_add (Fin 0) (map c_quantity (filter (\<lambda>r. groupKey r = (s, c, k)) recs))
         \<and> set (regionalSuitability cr)
             = suitabilityEntry ` {r \<in> set recs. groupKey r = (s, c, k)}"
  using assms
proof (induction recs arbitrary: cr rule: rev_induct)
  case Nil
  then show ?case by (simp add: build_def initBuilder_def lookupCrop_def)
next
  case (snoc r recs)
  have ok: "builder_ok (build recs)"
    using snoc.prems(1) by (simp add: builder_ok_build)
  show ?case
  proof (cases "groupKey r = (s, c, k)")
    case False
    with snoc show ?thesis by (auto simp: build_snoc lookupCrop_merge)
  next
    case True
    then have st: "c_state r = s" by (simp add: groupKey_def)
    show ?thesis
    proof (cases "lookupCrop (build recs) s c k")
      case None
      then have "(s, c, k) \<notin> groupKey ` set recs"
        by (simp add: lookupCrop_build_None)
      then have none: "\<forall>x \<in> set recs. groupKey x \<noteq> (s, c, k)"
        by force
      then have "filter (\<lambda>r. groupKey r = (s, c, k)) recs = []"
        by (auto simp: filter_empty_conv)
      moreover have "{r \<in> set recs. groupKey r = (s, c, k)} = {}"
        using none by auto
      moreover have "cr = addObservation r (newCrop (nextCropId (build recs)) r)"
        using snoc.prems(2) True None by (simp add: build_snoc lookupCrop_merge)
      ultimately show ?thesis
        using True by (auto simp: addObservation_def Let_def newCrop_def)
    next
      case (Some old)
      have IH: "demandQuantity old
                  = foldl js_add (Fin 0) (map c_quantity (filter (\<lambda>r. groupKey r = (s, c, k)) recs))
                \<and> set (regionalSuitability old)
                  = suitabilityEntry ` {r \<in> set recs. groupKey r = (s, c, k)}"
        using snoc.IH[OF _ Some] snoc.prems(1) by simp
      have "crop_ok (c_state r) c k old"
        using lookupCrop_ok[OF ok Some] st by simp
      then have regs: "set (regionalSuitability (addObservation r old))
                       = insert (suitabilityEntry r) (set (regionalSuitability old))"
        by (rule addObservation_regions)
      have "cr = addObservation r old"
        using snoc.prems(2) True Some by (simp add: build_snoc lookupCrop_merge)
      with IH regs True show ?thesis
        by (auto simp: addObservation_demand)
    qed
  qed
qed

section \<open>The snapshot built by finalizeData\<close>

lemma finalizeStep_eq:
  "finalizeStep sd (cats, tc, td) n =
     (cats @ [finalizeCategory sd n],
      tc + cat_count (finalizeCategory sd n),
      foldl (\<lambda>t c. js_add t (demandQuantity c)) td (crops (finalizeCategory sd n)))"
  by (cases "map_of (categoriesMap sd) n")
     (simp_all add: finalizeStep_def finalizeCategory_def Let_def)

lemma foldl_finalizeStep:
  "foldl (finalizeStep sd) (cats, tc, td) names =
     (cats @ map (finalizeCategory sd) names,
      tc + sum_list (map (\<lambda>n. cat_count (finalizeCategory sd n)) names),
      foldl (\<lambda>t c. js_add t (demandQuantity c)) td
        (concat (map (\<lambda>n. crops (finalizeCategory sd n)) names)))"
proof (induction names arbitrary: cats tc td)
  case Nil
  show ?case by simp
next
  case (Cons n names)
  show ?case by (simp add: finalizeStep_eq Cons ac_simps)
qed

lemma finalizeState_fields:
  "state (finalizeState now sd) = sd_state sd"
  "categories (finalizeState now sd) = map (finalizeCategory sd) VALID_CATEGORIES"
  "totalCategories (summary (finalizeState now sd)) = length VALID_CATEGORIES"
  "totalCrops (summary (finalizeState now sd))
     = sum_list (map (\<lambda>n. cat_count (finalizeCategory sd n)) VALID_CATEGORIES)"
  "totalDemand (summary (finalizeState now sd))
     = foldl (\<lambda>t c. js_add t (demandQuantity c)) (Fin 0)
         (concat (map (\<lambda>n. crops (finalizeCategory sd n)) VALID_CATEGORIES))"
  "unit (summary (finalizeState now sd)) = unit (sd_summary sd)"
  "lastUpdated (summary (finalizeState now sd)) = now"
  unfolding finalizeState_def by (simp_all add: foldl_finalizeStep)

lemma map_snd_enumerate_fun: "map (\<lambda>q. f (snd q)) (enumerate n xs) = map f xs"
  by (induction xs arbitrary: n) simp_all

lemma finalizeData_map:
  assumes "\<And>now sd. g (finalizeState now sd) = h sd"
  shows "map g (finalizeData clock b) = map (\<lambda>p. h (snd p)) (stateDataMap b)"
proof -
  have "map g (finalizeData clock b)
          = map (\<lambda>q. h (snd (snd q))) (enumerate 0 (stateDataMap b))"
    unfolding finalizeData_def by (simp add: assms case_prod_unfold comp_def)
  also have "\<dots> = map (\<lambda>p. h (snd p)) (stateDataMap b)"
    by (rule map_snd_enumerate_fun)
  finally show ?thesis .
qed

lemma snapshotCrops_finalizeData:
  "snapshotCrops (finalizeData clock b) = concat (map (\<lambda>p. stateCrops (snd p)) (stateDataMap b))"
proof -
  let ?g = "\<lambda>s::(category, stateSummary) stateEntry.
              concat (map (\<lambda>c. map (\<lambda>cr. (state s, cat_name c, cr)) (crops c)) (categories s))"
  have "?g (finalizeState now sd) = stateCrops sd" for now sd
    by (simp add: finalizeState_fields stateCrops_def comp_def)
  then have "map ?g (finalizeData clock b) = map (\<lambda>p. stateCrops (snd p)) (stateDataMap b)"
    by (rule finalizeData_map)
  then show ?thesis by (simp add: snapshotCrops_def)
qed

lemma distinct_VALID_CATEGORIES: "distinct VALID_CATEGORIES"
  by (simp add: VALID_CATEGORIES_def)

lemma finalizeCategory_name:
  assumes "state_ok st sd"
  shows "cat_name (finalizeCategory sd n) = n"
proof (cases "map_of (categoriesMap sd) n")
  case None
  then show ?thesis by (simp add: finalizeCategory_def)
next
  case (Some cd)
  with assms have "category_ok st n cd"
    by (auto simp: state_ok_def dest!: map_of_SomeD)
  with Some show ?thesis by (simp add: finalizeCategory_def category_ok_def)
qed

lemma finalizeCategory_count: "cat_count (finalizeCategory sd n) = length (crops (finalizeCategory sd n))"
  by (simp add: finalizeCategory_def split: option.splits)

lemma stateCrops_iff:
  assumes "state_ok st sd"
  shows "(s, c, cr) \<in> set (stateCrops sd)
         \<longleftrightarrow> s = st \<and> (\<exists>cd k. map_of (categoriesMap sd) c = Some cd \<and> map_of (cropsMap cd) k = Some cr)"
proof
  assume "(s, c, cr) \<in> set (stateCrops sd)"
  then obtain n where n: "n \<in> set VALID_CATEGORIES" "s = sd_state sd"
      "c = cat_name (finalizeCategory sd n)" "cr \<in> set (crops (finalizeCategory sd n))"
    by (auto simp: stateCrops_def)
  from n(3) assms have c: "c = n" by (simp add: finalizeCategory_name)
  from n(4) obtain cd where cd: "map_of (categoriesMap sd) n = Some cd" "cr \<in> snd ` set (cropsMap cd)"
    by (auto simp: finalizeCategory_def split: option.splits)
  from cd assms have "category_ok st n cd"
    by (auto simp: state_ok_def dest!: map_of_SomeD)
  then have "distinct (map fst (cropsMap cd))" by (simp add: category_ok_def)
  with cd(2) obtain k where "map_of (cropsMap cd) k = Some cr"
    by (auto simp: map_of_eq_Some_iff)
  with cd(1) c n(2) assms show "s = st \<and> (\<exists>cd k. map_of (categoriesMap sd) c = Some cd \<and> map_of (cropsMap cd) k = Some cr)"
    by (auto simp: state_ok_def)
next
  assume r: "s = st \<and> (\<exists>cd k. map_of (categoriesMap sd) c = Some cd \<and> map_of (cropsMap cd) k = Some cr)"
  then obtain cd k where cd: "map_of (categoriesMap sd) c = Some cd" "map_of (cropsMap cd) k = Some cr"
    by blast
  from cd(1) assms have ok: "category_ok st c cd"
    by (auto simp: state_ok_def dest!: map_of_SomeD)
  then have v: "c \<in> set VALID_CATEGORIES" by (simp add: category_ok_def)
  have "(k, cr) \<in> set (cropsMap cd)" using cd(2) by (rule map_of_SomeD)
  then have "cr \<in> set (crops (finalizeCategory sd c))"
    using cd(1) by (force simp: finalizeCategory_def)
  moreover have "cat_name (finalizeCategory sd c) = c"
    using assms by (rule finalizeCategory_name)
  moreover have "sd_state sd = st" using assms by (simp add: state_ok_def)
  ultimately show "(s, c, cr) \<in> set (stateCrops sd)"
    using v r unfolding stateCrops_def by force
qed

lemma snapshotCrops_iff:
  assumes "builder_ok b"
  shows "(s, c, cr) \<in> set (snapshotCrops (finalizeData clock b))
         \<longleftrightarrow> (\<exists>k. lookupCrop b s c k = Some cr)"
proof
  assume "(s, c, cr) \<in> set (snapshotCrops (finalizeData clock b))"
  then obtain st sd where p: "(st, sd) \<in> set (stateDataMap b)" "(s, c, cr) \<in> set (stateCrops sd)"
    by (auto simp: snapshotCrops_finalizeData)
  from p(1) assms have ok: "state_ok st sd" and m: "map_of (stateDataMap b) st = Some sd"
    by (auto simp: builder_ok_def)
  from p(2) stateCrops_iff[OF ok] m show "\<exists>k. lookupCrop b s c k = Some cr"
    by (auto simp: lookupCrop_def)
next
  assume "\<exists>k. lookupCrop b s c k = Some cr"
  then obtain k sd cd where
    sd: "map_of (stateDataMap b) s = Some sd" and
    cd: "map_of (categoriesMap sd) c = Some cd" "map_of (cropsMap cd) k = Some cr"
    by (auto simp: lookupCrop_def split: option.splits)
  from sd have mem: "(s, sd) \<in> set (stateDataMap b)" by (rule map_of_SomeD)
  with assms have ok: "state_ok s sd" by (auto simp: builder_ok_def)
  from cd stateCrops_iff[OF ok] have "(s, c, cr) \<in> set (stateCrops sd)" by blast
  with mem show "(s, c, cr) \<in> set (snapshotCrops (finalizeData clock b))"
    by (force simp: snapshotCrops_finalizeData)
qed

section \<open>Lists, groups and sums\<close>

lemma firstOccurrences_snoc:
  "firstOccurrences (xs @ [x])
     = (if x \<in> set xs then firstOccurrences xs else firstOccurrences xs @ [x])"
  by (simp add: firstOccurrences_def)

lemma set_firstOccurrences: "set (firstOccurrences xs) = set xs"
  by (simp add: firstOccurrences_def)

lemma subseq_take_filter: "subseq (take n (filter P xs)) xs"
  by (meson prefix_imp_subseq subseq_filter_left subseq_order.trans take_is_prefix)

lemma mset_subseq_ex: "M \<subseteq># mset xs \<Longrightarrow> \<exists>ys. subseq ys xs \<and> mset ys = M"
proof (induction xs arbitrary: M)
  case Nil
  then show ?case by simp
next
  case (Cons x xs)
  show ?case
  proof (cases "x \<in># M")
    case True
    with Cons.prems have "M - {#x#} \<subseteq># mset xs"
      by (simp add: insert_subset_eq_iff subset_eq_diff_conv)
    from Cons.IH[OF this] obtain ys where "subseq ys xs" "mset ys = M - {#x#}" by blast
    with True have "subseq (x # ys) (x # xs) \<and> mset (x # ys) = M" by simp
    then show ?thesis by blast
  next
    case False
    with Cons.prems have "M \<subseteq># mset xs"
      by (metis diff_single_trivial mset.simps(2) subset_eq_diff_conv add_mset_add_single)
    from Cons.IH[OF this] obtain ys where "subseq ys xs" "mset ys = M" by blast
    then have "subseq ys (x # xs) \<and> mset ys = M" by (simp add: list_emb_Cons)
    then show ?thesis by blast
  qed
qed

lemma subseq_mset: "subseq xs ys \<Longrightarrow> mset xs \<subseteq># mset ys"
  by (induction rule: list_emb.induct) (auto intro: subset_mset.order_trans)

lemma sum_list_mset_eq:
  fixes xs :: "'a::comm_monoid_add list"
  shows "mset xs = mset ys \<Longrightarrow> sum_list xs = sum_list ys"
  by (metis sum_mset_sum_list)

lemma distinct_concat_map:
  assumes "distinct xs" and "\<And>x. x \<in> set xs \<Longrightarrow> distinct (f x)"
    and "\<And>x y. x \<in> set xs \<Longrightarrow> y \<in> set xs \<Longrightarrow> x \<noteq> y \<Longrightarrow> set (f x) \<inter> set (f y) = {}"
  shows "distinct (concat (map f xs))"
  using assms
proof (induction xs)
  case Nil
  show ?case by simp
next
  case (Cons x xs)
  have "distinct (concat (map f xs))"
    using Cons.prems by (intro Cons.IH) auto
  moreover have "set (f x) \<inter> set (f y) = {}" if "y \<in> set xs" for y
    using Cons.prems(1) that by (intro Cons.prems(3)) auto
  ultimately show ?case using Cons.prems(2)[of x] by auto
qed

lemma sum_list_filter_disj:
  fixes v :: "'a \<Rightarrow> 'b::comm_monoid_add"
  assumes "\<And>x. x \<in> set xs \<Longrightarrow> \<not> (P x \<and> Q x)"
  shows "sum_list (map v (filter (\<lambda>x. P x \<or> Q x) xs))
         = sum_list (map v (filter P xs)) + sum_list (map v (filter Q xs))"
  using assms by (induction xs) (auto simp: ac_simps)

lemma sum_groups:
  fixes v :: "'a \<Rightarrow> 'b::comm_monoid_add"
  assumes "distinct gs"
  shows "sum_list (map (\<lambda>g. sum_list (map v (filter (\<lambda>r. k r = g) recs))) gs)
         = sum_list (map v (filter (\<lambda>r. k r \<in> set gs) recs))"
  using assms
proof (induction gs)
  case Nil
  show ?case by simp
next
  case (Cons g gs)
  have "sum_list (map v (filter (\<lambda>r. k r \<in> set (g # gs)) recs))
          = sum_list (map v (filter (\<lambda>r. k r = g \<or> k r \<in> set gs) recs))"
    by simp
  also have "\<dots> = sum_list (map v (filter (\<lambda>r. k r = g) recs))
                   + sum_list (map v (filter (\<lambda>r. k r \<in> set gs) recs))"
    using Cons.prems by (intro sum_list_filter_disj) auto
  finally show ?case using Cons by simp
qed

section \<open>Sums that are not rounded\<close>

lemma sumInOrder_snoc: "sumInOrder (xs @ [x]) = js_add (sumInOrder xs) x"
  by (simp add: sumInOrder_def)

lemma sumInOrder_exact:
  assumes "\<And>n. n \<le> length vs \<Longrightarrow> roundDouble (sum_list (take n vs)) = Fin (sum_list (take n vs))"
  shows "sumInOrder (map Fin vs) = Fin (sum_list vs)"
  using assms
proof (induction vs rule: rev_induct)
  case Nil
  show ?case by (simp add: sumInOrder_def)
next
  case (snoc v vs)
  have "roundDouble (sum_list (take n vs)) = Fin (sum_list (take n vs))" if "n \<le> length vs" for n
    using snoc.prems[of n] that by simp
  then have "sumInOrder (map Fin vs) = Fin (sum_list vs)" by (rule snoc.IH)
  moreover have "roundDouble (sum_list (vs @ [v])) = Fin (sum_list (vs @ [v]))"
    using snoc.prems[of "length (vs @ [v])"] by simp
  ultimately show ?case by (simp add: sumInOrder_snoc)
qed

lemma exactSums_subseq:
  assumes "exactSums recs" and "subseq ys recs"
  shows "roundDouble (sum_list (map quantityValue ys)) = Fin (sum_list (map quantityValue ys))"
proof -
  from assms(2) have "subseq (map quantityValue ys) (map quantityValue recs)"
    by (rule subseq_map)
  then have "map quantityValue ys \<in> set (subseqs (map quantityValue recs))"
    by (simp add: in_set_subseqs)
  with assms(1) show ?thesis by (simp add: exactSums_def)
qed

lemma exactSums_quantity:
  assumes "exactSums recs" and "r \<in> set recs"
  shows "c_quantity r = Fin (quantityValue r)"
proof -
  from assms have "isFiniteNumber (c_quantity r)" by (simp add: exactSums_def list_all_iff)
  then show ?thesis
    by (cases "c_quantity r") (simp_all add: isFiniteNumber_def quantityValue_def finiteValue_def)
qed

lemma sumInOrder_rows:
  assumes "exactSums recs" and "subseq ys recs"
  shows "sumInOrder (map c_quantity ys) = Fin (sum_list (map quantityValue ys))"
proof -
  have "set ys \<subseteq> set recs"
    using subseq_mset[OF assms(2)] by (metis set_mset_mono set_mset_mset)
  then have eq: "map c_quantity ys = map Fin (map quantityValue ys)"
    using exactSums_quantity[OF assms(1)] by (auto simp: subset_iff)
  have "roundDouble (sum_list (take n (map quantityValue ys)))
          = Fin (sum_list (take n (map quantityValue ys)))" for n
  proof -
    have "subseq (take n ys) recs"
      by (meson assms(2) prefix_imp_subseq subseq_order.trans take_is_prefix)
    from exactSums_subseq[OF assms(1) this] show ?thesis by (simp add: take_map)
  qed
  then have "sumInOrder (map Fin (map quantityValue ys)) = Fin (sum_list (map quantityValue ys))"
    by (intro sumInOrder_exact)
  then show ?thesis by (simp only: eq)
qed

lemma sumInOrder_groups:
  assumes "exactSums recs" and "distinct gs"
  shows "sumInOrder (map (\<lambda>g. Fin (sum_list (map quantityValue (groupRows recs g)))) gs)
         = Fin (sum_list (map quantityValue (filter (\<lambda>r. groupKey r \<in> set gs) recs)))"
proof -
  let ?gsum = "\<lambda>g. sum_list (map quantityValue (groupRows recs g))"
  have total: "sum_list (map ?gsum hs)
               = sum_list (map quantityValue (filter (\<lambda>r. groupKey r \<in> set hs) recs))"
    if "distinct hs" for hs
    unfolding groupRows_def using that by (rule sum_groups)
  have "roundDouble (sum_list (take n (map ?gsum gs))) = Fin (sum_list (take n (map ?gsum gs)))"
    for n
  proof -
    have "distinct (take n gs)" using assms(2) by simp
    from total[OF this]
    have "sum_list (take n (map ?gsum gs))
            = sum_list (map quantityValue (filter (\<lambda>r. groupKey r \<in> set (take n gs)) recs))"
      by (simp add: take_map)
    with exactSums_subseq[OF assms(1) subseq_filter_left] show ?thesis by simp
  qed
  then have "sumInOrder (map Fin (map ?gsum gs)) = Fin (sum_list (map ?gsum gs))"
    by (intro sumInOrder_exact)
  with total[OF assms(2)] show ?thesis by (simp add: comp_def)
qed

lemma exactSums_mset:
  assumes "exactSums recs" and "mset recs = mset recs'"
  shows "exactSums recs'"
proof -
  have "set recs = set recs'" using assms(2) by (rule mset_eq_setD)
  with assms(1) have fin: "list_all (\<lambda>r. isFiniteNumber (c_quantity r)) recs'"
    by (simp add: exactSums_def list_all_iff)
  have "roundDouble (sum_list qs) = Fin (sum_list qs)"
    if "qs \<in> set (subseqs (map quantityValue recs'))" for qs
  proof -
    from that have "subseq qs (map quantityValue recs')" by (simp add: in_set_subseqs)
    then have "mset qs \<subseteq># mset (map quantityValue recs')" by (rule subseq_mset)
    also have "mset (map quantityValue recs') = mset (map quantityValue recs)"
      using assms(2) by simp
    finally obtain zs where zs: "subseq zs (map quantityValue recs)" "mset zs = mset qs"
      by (blast dest: mset_subseq_ex)
    from zs(1) have "zs \<in> set (subseqs (map quantityValue recs))" by (simp add: in_set_subseqs)
    with assms(1) have "roundDouble (sum_list zs) = Fin (sum_list zs)"
      by (simp add: exactSums_def)
    moreover have "sum_list zs = sum_list qs" using zs(2) by (rule sum_list_mset_eq)
    ultimately show ?thesis by simp
  qed
  with fin show ?thesis by (simp add: exactSums_def)
qed

section \<open>The crops of a snapshot and their groups\<close>

lemma addObservation_scientificName: "scientificName (addObservation r c) = scientificName c"
  by (simp add: addObservation_def Let_def)

lemma addObservation_regions_list:
  assumes "crop_ok (c_state r) cat key c"
  shows "regionalSuitability (addObservation r c)
         = (if suitabilityEntry r \<in> set (regionalSuitability c) then regionalSuitability c
            else regionalSuitability c @ [suitabilityEntry r])"
proof (cases "find (\<lambda>s. district s = c_district r \<and> suitability s = suitability (suitabilityEntry r)) (regionalSuitability c)")
  case None
  then have "\<forall>s \<in> set (regionalSuitability c).
               \<not> (district s = c_district r \<and> suitability s = suitability (suitabilityEntry r))"
    by (simp add: find_None_iff)
  moreover have "district (suitabilityEntry r) = c_district r"
    by (simp add: suitabilityEntry_def)
  ultimately have "suitabilityEntry r \<notin> set (regionalSuitability c)"
    by blast
  with None show ?thesis by (simp add: addObservation_def Let_def)
next
  case (Some s)
  then have s: "s \<in> set (regionalSuitability c)" "district s = c_district r"
    "suitability s = suitability (suitabilityEntry r)"
    by (auto dest: find_SomeD)
  with assms have "rf_state s = c_state r" "geography s = ''India''"
    by (auto simp: crop_ok_def)
  with s have "s = suitabilityEntry r"
    by (intro regionFact.equality) (simp_all add: suitabilityEntry_def)
  with s Some show ?thesis by (auto simp: addObservation_def Let_def)
qed

lemma lookupCrop_build_first:
  assumes "\<And>r. r \<in> set recs \<Longrightarrow> c_category r \<in> set VALID_CATEGORIES"
    and "lookupCrop (build recs) s c k = Some cr"
  shows "groupRows recs (s, c, k) \<noteq> []
         \<and> cropName cr = c_cropName (hd (groupRows recs (s, c, k)))
         \<and> scientificName cr = c_scientificName (hd (groupRows recs (s, c, k)))
         \<and> regionalSuitability cr
             = firstOccurrences (map suitabilityEntry (groupRows recs (s, c, k)))"
  using assms
proof (induction recs arbitrary: cr rule: rev_induct)
  case Nil
  then show ?case by (simp add: build_def initBuilder_def lookupCrop_def)
next
  case (snoc r recs)
  have ok: "builder_ok (build recs)"
    using snoc.prems(1) by (simp add: builder_ok_build)
  show ?case
  proof (cases "groupKey r = (s, c, k)")
    case False
    with snoc show ?thesis by (auto simp: build_snoc lookupCrop_merge groupRows_def)
  next
    case True
    then have st: "c_state r = s" by (simp add: groupKey_def)
    show ?thesis
    proof (cases "lookupCrop (build recs) s c k")
      case None
      then have "(s, c, k) \<notin> groupKey ` set recs"
        by (simp add: lookupCrop_build_None)
      then have "\<forall>x \<in> set recs. groupKey x \<noteq> (s, c, k)"
        by force
      then have "groupRows recs (s, c, k) = []"
        by (auto simp: groupRows_def filter_empty_conv)
      then have g: "groupRows (recs @ [r]) (s, c, k) = [r]"
        using True by (simp add: groupRows_def)
      have "cr = addObservation r (newCrop (nextCropId (build recs)) r)"
        using snoc.prems(2) True None by (simp add: build_snoc lookupCrop_merge)
      then show ?thesis
        unfolding g
        by (simp add: addObservation_def Let_def newCrop_def firstOccurrences_def)
    next
      case (Some old)
      have IH: "groupRows recs (s, c, k) \<noteq> []
                \<and> cropName old = c_cropName (hd (groupRows recs (s, c, k)))
                \<and> scientificName old = c_scientificName (hd (groupRows recs (s, c, k)))
                \<and> regionalSuitability old
                    = firstOccurrences (map suitabilityEntry (groupRows recs (s, c, k)))"
        using snoc.IH[OF _ Some] snoc.prems(1) by simp
      have g: "groupRows (recs @ [r]) (s, c, k) = groupRows recs (s, c, k) @ [r]"
        using True by (simp add: groupRows_def)
      have "crop_ok (c_state r) c k old"
        using lookupCrop_ok[OF ok Some] st by simp
      then have regs: "regionalSuitability (addObservation r old)
                       = (if suitabilityEntry r \<in> set (regionalSuitability old)
                          then regionalSuitability old
                          else regionalSuitability old @ [suitabilityEntry r])"
        by (rule addObservation_regions_list)
      have cr: "cr = addObservation r old"
        using snoc.prems(2) True Some by (simp add: build_snoc lookupCrop_merge)
      from IH have "hd (groupRows recs (s, c, k) @ [r]) = hd (groupRows recs (s, c, k))"
        by simp
      with IH regs show ?thesis
        unfolding g cr
        by (simp add: addObservation_name addObservation_scientificName
            firstOccurrences_snoc set_firstOccurrences)
    qed
  qed
qed

lemma lookupCrop_build_demand:
  assumes "\<And>r. r \<in> set recs \<Longrightarrow> c_category r \<in> set VALID_CATEGORIES"
    and "lookupCrop (build recs) s c k = Some cr"
  shows "demandQuantity cr = sumInOrder (map c_quantity (groupRows recs (s, c, k)))"
  using lookupCrop_build_Some[OF assms] by (simp add: sumInOrder_def groupRows_def)

lemma lookupCrop_build_exact:
  assumes "\<And>r. r \<in> set recs \<Longrightarrow> c_category r \<in> set VALID_CATEGORIES"
    and "lookupCrop (build recs) s c k = Some cr" and "exactSums recs"
  shows "demandQuantity cr = Fin (sum_list (map quantityValue (groupRows recs (s, c, k))))"
proof -
  have "subseq (groupRows recs (s, c, k)) recs"
    unfolding groupRows_def by (rule subseq_filter_left)
  from sumInOrder_rows[OF assms(3) this] lookupCrop_build_demand[OF assms(1,2)]
  show ?thesis by simp
qed

lemma snapshotCrops_group:
  assumes "builder_ok b" and "t \<in> set (snapshotCrops (finalizeData clock b))"
  shows "lookupCrop b (fst t) (fst (snd t)) (snd (snd (cropGroup t))) = Some (snd (snd t))
         \<and> cropGroup t = (fst t, fst (snd t), snd (snd (cropGroup t)))"
proof -
  obtain s c cr where teq: "t = (s, c, cr)" by (cases t)
  from assms(2) teq obtain k where k: "lookupCrop b s c k = Some cr"
    using snapshotCrops_iff[OF assms(1)] by blast
  have "cropKeyOf (cropName cr) = k"
    using lookupCrop_ok[OF assms(1) k] by (simp add: crop_ok_def)
  with k show ?thesis by (simp add: teq cropGroup_def)
qed

lemma snapshotCrops_groups:
  assumes "builder_ok (build recs)"
  shows "cropGroup ` set (snapshotCrops (finalizeData clock (build recs))) = groupKey ` set recs"
proof (intro set_eqI iffI)
  fix g assume "g \<in> cropGroup ` set (snapshotCrops (finalizeData clock (build recs)))"
  then obtain t where t: "t \<in> set (snapshotCrops (finalizeData clock (build recs)))"
    and g: "g = cropGroup t" by blast
  from snapshotCrops_group[OF assms t]
  have "lookupCrop (build recs) (fst t) (fst (snd t)) (snd (snd (cropGroup t))) \<noteq> None"
    and "cropGroup t = (fst t, fst (snd t), snd (snd (cropGroup t)))"
    by simp_all
  then show "g \<in> groupKey ` set recs"
    unfolding g by (metis lookupCrop_build_None)
next
  fix g assume g: "g \<in> groupKey ` set recs"
  obtain s c k where geq: "g = (s, c, k)" by (cases g)
  from g geq have "lookupCrop (build recs) s c k \<noteq> None"
    by (simp add: lookupCrop_build_None)
  then obtain cr where cr: "lookupCrop (build recs) s c k = Some cr" by blast
  then have m: "(s, c, cr) \<in> set (snapshotCrops (finalizeData clock (build recs)))"
    using snapshotCrops_iff[OF assms] by blast
  have "cropKeyOf (cropName cr) = k"
    using lookupCrop_ok[OF assms cr] by (simp add: crop_ok_def)
  then have "g = cropGroup (s, c, cr)" by (simp add: geq cropGroup_def)
  from this m show "g \<in> cropGroup ` set (snapshotCrops (finalizeData clock (build recs)))"
    by (rule image_eqI)
qed

lemma finalizeCategory_keys:
  assumes "state_ok st sd"
  shows "map (\<lambda>cr. cropKeyOf (cropName cr)) (crops (finalizeCategory sd n))
         = (case map_of (categoriesMap sd) n of None \<Rightarrow> [] | Some cd \<Rightarrow> map fst (cropsMap cd))"
proof (cases "map_of (categoriesMap sd) n")
  case None
  then show ?thesis by (simp add: finalizeCategory_def)
next
  case (Some cd)
  with assms have "category_ok st n cd"
    by (auto simp: state_ok_def dest!: map_of_SomeD)
  then have "\<forall>p \<in> set (cropsMap cd). cropKeyOf (cropName (snd p)) = fst p"
    by (auto simp: category_ok_def crop_ok_def)
  then have "map (\<lambda>p. cropKeyOf (cropName (snd p))) (cropsMap cd) = map fst (cropsMap cd)"
    by (intro map_cong refl) simp
  with Some show ?thesis by (simp add: finalizeCategory_def comp_def)
qed

lemma finalizeCategory_distinct:
  assumes "state_ok st sd"
  shows "distinct (map (\<lambda>cr. cropKeyOf (cropName cr)) (crops (finalizeCategory sd n)))"
proof (cases "map_of (categoriesMap sd) n")
  case None
  then show ?thesis by (simp add: finalizeCategory_def)
next
  case (Some cd)
  with assms have "category_ok st n cd"
    by (auto simp: state_ok_def dest!: map_of_SomeD)
  then have "distinct (map fst (cropsMap cd))" by (simp add: category_ok_def)
  with Some show ?thesis by (simp only: finalizeCategory_keys[OF assms] option.case)
qed

lemma stateCrops_groups:
  assumes "state_ok st sd"
  shows "map cropGroup (stateCrops sd)
         = concat (map (\<lambda>n. map (\<lambda>k. (st, n, k))
                                (map (\<lambda>cr. cropKeyOf (cropName cr)) (crops (finalizeCategory sd n))))
                    VALID_CATEGORIES)"
proof -
  have "sd_state sd = st" using assms by (simp add: state_ok_def)
  then show ?thesis
    unfolding stateCrops_def
    by (simp add: map_concat comp_def cropGroup_def finalizeCategory_name[OF assms])
qed

lemma distinct_stateCrops:
  assumes "state_ok st sd"
  shows "distinct (map cropGroup (stateCrops sd))"
  unfolding stateCrops_groups[OF assms]
proof (rule distinct_concat_map)
  show "distinct VALID_CATEGORIES" by (rule distinct_VALID_CATEGORIES)
next
  fix n
  show "distinct (map (\<lambda>k. (st, n, k))
                   (map (\<lambda>cr. cropKeyOf (cropName cr)) (crops (finalizeCategory sd n))))"
    using finalizeCategory_distinct[OF assms, of n] by (simp add: distinct_map inj_on_def)
next
  fix n m :: string
  assume "n \<noteq> m"
  then show "set (map (\<lambda>k. (st, n, k))
                   (map (\<lambda>cr. cropKeyOf (cropName cr)) (crops (finalizeCategory sd n))))
             \<inter> set (map (\<lambda>k. (st, m, k))
                   (map (\<lambda>cr. cropKeyOf (cropName cr)) (crops (finalizeCategory sd m)))) = {}"
    by auto
qed

lemma stateCrops_state: "state_ok st sd \<Longrightarrow> t \<in> set (stateCrops sd) \<Longrightarrow> fst (cropGroup t) = st"
  by (auto simp: stateCrops_def cropGroup_def state_ok_def)

lemma distinct_snapshotCrops:
  assumes "builder_ok b"
  shows "distinct (map cropGroup (snapshotCrops (finalizeData clock b)))"
proof -
  have "map cropGroup (snapshotCrops (finalizeData clock b))
          = concat (map (\<lambda>p. map cropGroup (stateCrops (snd p))) (stateDataMap b))"
    by (simp add: snapshotCrops_finalizeData map_concat comp_def)
  moreover have "distinct (concat (map (\<lambda>p. map cropGroup (stateCrops (snd p))) (stateDataMap b)))"
  proof (rule distinct_concat_map)
    show "distinct (stateDataMap b)"
      using assms by (auto simp: builder_ok_def distinct_map)
  next
    fix p assume "p \<in> set (stateDataMap b)"
    with assms have "state_ok (fst p) (snd p)" by (auto simp: builder_ok_def)
    then show "distinct (map cropGroup (stateCrops (snd p)))" by (rule distinct_stateCrops)
  next
    fix p q assume p: "p \<in> set (stateDataMap b)" and q: "q \<in> set (stateDataMap b)" and ne: "p \<noteq> q"
    from assms p q have okp: "state_ok (fst p) (snd p)" and okq: "state_ok (fst q) (snd q)"
      by (auto simp: builder_ok_def)
    have "fst p \<noteq> fst q"
    proof
      assume "fst p = fst q"
      moreover have "distinct (map fst (stateDataMap b))" using assms by (simp add: builder_ok_def)
      ultimately have "p = q" using p q by (metis eq_key_imp_eq_value prod.collapse)
      with ne show False by simp
    qed
    then show "set (map cropGroup (stateCrops (snd p))) \<inter> set (map cropGroup (stateCrops (snd q))) = {}"
      using stateCrops_state[OF okp] stateCrops_state[OF okq] by fastforce
  qed
  ultimately show ?thesis by simp
qed

lemma set_keys_upsert: "fst ` set (upsert k d f al) = insert k (fst ` set al)"
proof -
  have "set (map fst (upsert k d f al)) = insert k (set (map fst al))"
    unfolding keys_upsert by auto
  then show ?thesis by simp
qed

lemma stateDataMap_build: "fst ` set (stateDataMap (build recs)) = c_state ` set recs"
proof (induction recs rule: rev_induct)
  case Nil
  show ?case by (simp add: build_def initBuilder_def)
next
  case (snoc r recs)
  then show ?case
    by (simp add: build_snoc mergeRecord_def Let_def set_keys_upsert)
qed

lemma stateCrops_in_builder:
  assumes "builder_ok b" and "(st, sd) \<in> set (stateDataMap b)"
  shows "t \<in> set (stateCrops sd)
         \<longleftrightarrow> fst t = st \<and> t \<in> set (snapshotCrops (finalizeData clock b))"
proof -
  obtain s c cr where teq: "t = (s, c, cr)" by (cases t)
  from assms have ok: "state_ok st sd" and m: "map_of (stateDataMap b) st = Some sd"
    by (auto simp: builder_ok_def)
  have "(s, c, cr) \<in> set (stateCrops sd)
        \<longleftrightarrow> s = st \<and> (\<exists>k. lookupCrop b s c k = Some cr)"
    using stateCrops_iff[OF ok, of s c cr] m by (auto simp: lookupCrop_def split: option.splits)
  then show ?thesis
    unfolding teq using snapshotCrops_iff[OF assms(1), of s c cr clock] by simp
qed

section \<open>Demand conservation\<close>

lemma aggregate_build: "aggregate clock rows = finalizeData clock (build (accepted rows))"
  by (simp add: aggregate_def processRows_build)

lemma builder_ok_accepted: "builder_ok (build (accepted rows))"
  using builder_ok_processRows[of rows] by (simp add: processRows_build)

lemma aggregate_crop:
  assumes "t \<in> set (snapshotCrops (aggregate clock rows))"
  shows "lookupCrop (build (accepted rows)) (fst t) (fst (snd t)) (snd (snd (cropGroup t)))
           = Some (snd (snd t))"
    and "(fst t, fst (snd t), snd (snd (cropGroup t))) = cropGroup t"
  using snapshotCrops_group[OF builder_ok_accepted, of t clock rows] assms
  by (simp_all add: aggregate_build)

lemma aggregate_demand:
  assumes "t \<in> set (snapshotCrops (aggregate clock rows))"
  shows "demandQuantity (snd (snd t))
         = sumInOrder (map c_quantity (groupRows (accepted rows) (cropGroup t)))"
  using lookupCrop_build_demand[OF accepted_valid aggregate_crop(1)[OF assms]]
  by (simp only: aggregate_crop(2)[OF assms])

lemma aggregate_demand_exact:
  assumes "t \<in> set (snapshotCrops (aggregate clock rows))" and "exactSums (accepted rows)"
  shows "demandQuantity (snd (snd t))
         = Fin (sum_list (map quantityValue (groupRows (accepted rows) (cropGroup t))))"
  using lookupCrop_build_exact[OF accepted_valid aggregate_crop(1)[OF assms(1)] assms(2)]
  by (simp only: aggregate_crop(2)[OF assms(1)])

lemma aggregate_groups:
  "distinct (map cropGroup (snapshotCrops (aggregate clock rows)))"
  "cropGroup ` set (snapshotCrops (aggregate clock rows)) = groupKey ` set (accepted rows)"
  unfolding aggregate_build
  by (rule distinct_snapshotCrops[OF builder_ok_accepted],
      rule snapshotCrops_groups[OF builder_ok_accepted])

lemma filter_groups_all:
  assumes "groupKey ` set recs \<subseteq> set gs"
  shows "filter (\<lambda>r. groupKey r \<in> set gs) recs = recs"
  using assms by (auto simp: filter_id_conv)

lemma aggregate_total_exact:
  assumes "exactSums (accepted rows)"
  shows "sum_list (map (\<lambda>t. finiteValue (demandQuantity (snd (snd t))))
                    (snapshotCrops (aggregate clock rows)))
           = sum_list (map quantityValue (accepted rows))"
    and "sumInOrder (map (\<lambda>t. demandQuantity (snd (snd t))) (snapshotCrops (aggregate clock rows)))
           = Fin (sum_list (map quantityValue (accepted rows)))"
proof -
  let ?crops = "snapshotCrops (aggregate clock rows)"
  let ?gs = "map cropGroup ?crops"
  let ?gsum = "\<lambda>g. sum_list (map quantityValue (groupRows (accepted rows) g))"
  have d: "distinct ?gs" by (rule aggregate_groups)
  have "groupKey ` set (accepted rows) \<subseteq> set ?gs"
    using aggregate_groups(2)[of clock rows] by simp
  then have all: "filter (\<lambda>r. groupKey r \<in> set ?gs) (accepted rows) = accepted rows"
    by (rule filter_groups_all)
  have dem: "map (\<lambda>t. demandQuantity (snd (snd t))) ?crops = map (\<lambda>g. Fin (?gsum g)) ?gs"
    using aggregate_demand_exact[OF _ assms] by (simp add: comp_def)
  have val: "map (\<lambda>t. finiteValue (demandQuantity (snd (snd t)))) ?crops = map ?gsum ?gs"
    using aggregate_demand_exact[OF _ assms] by (simp add: comp_def finiteValue_def)
  have "sum_list (map ?gsum ?gs)
          = sum_list (map quantityValue (filter (\<lambda>r. groupKey r \<in> set ?gs) (accepted rows)))"
    unfolding groupRows_def using d by (rule sum_groups)
  then show "sum_list (map (\<lambda>t. finiteValue (demandQuantity (snd (snd t)))) ?crops)
               = sum_list (map quantityValue (accepted rows))"
    by (simp only: val all)
  from sumInOrder_groups[OF assms d]
  show "sumInOrder (map (\<lambda>t. demandQuantity (snd (snd t))) ?crops)
          = Fin (sum_list (map quantityValue (accepted rows)))"
    by (simp only: dem all)
qed

lemma aggregate_scenario:
  "snapshotCrops (aggregate clock0 scenarioRows) = [(''Karnataka'', ''Vegetables'', scenarioTomato)]"
  by code_simp

lemma accepted_scenario:
  "map c_quantity (accepted scenarioRows) = [Fin 100, Fin 50]"
  "map groupKey (accepted scenarioRows)
     = [(''Karnataka'', ''Vegetables'', ''tomato''), (''Karnataka'', ''Vegetables'', ''tomato'')]"
  "exactSums (accepted scenarioRows)"
  "sum_list (map quantityValue (accepted scenarioRows)) = 150"
  "cropGroup (''Karnataka'', ''Vegetables'', scenarioTomato) = (''Karnataka'', ''Vegetables'', ''tomato'')"
  "groupRows (accepted scenarioRows) (''Karnataka'', ''Vegetables'', ''tomato'') = accepted scenarioRows"
  by code_simp+

text \<open>
  C1 (demand conservation), as the code has it. In the snapshot of any sequence of rows
  the crops stand for the groups of the accepted rows, one crop for each group (state,
  category, crop key), and the \<open>demandQuantity\<close> of each crop is the sum of the quantities
  of the rows of its group as the code adds them: in arrival order, starting from 0, each
  addition rounded to a double. When no sum of accepted quantities is rounded, (a) the
  \<open>demandQuantity\<close> of each crop is the sum of the values of the quantities of its group, and
  (b) the sum of \<open>demandQuantity\<close> over all crops of the snapshot is the sum of the
  quantities of all accepted rows, both as sums of the values and as sums added in order.
\<close>

theorem demand_is_sum_in_arrival_order:
  "distinct (map cropGroup (snapshotCrops (aggregate clock rows)))
   \<and> cropGroup ` set (snapshotCrops (aggregate clock rows)) = groupKey ` set (accepted rows)
   \<and> (\<forall>t \<in> set (snapshotCrops (aggregate clock rows)).
         demandQuantity (snd (snd t))
           = sumInOrder (map c_quantity (groupRows (accepted rows) (cropGroup t))))
   \<and> (exactSums (accepted rows) \<longrightarrow>
         (\<forall>t \<in> set (snapshotCrops (aggregate clock rows)).
            demandQuantity (snd (snd t))
              = Fin (sum_list (map quantityValue (groupRows (accepted rows) (cropGroup t)))))
         \<and> sum_list (map (\<lambda>t. finiteValue (demandQuantity (snd (snd t))))
                       (snapshotCrops (aggregate clock rows)))
             = sum_list (map quantityValue (accepted rows))
         \<and> sumInOrder (map (\<lambda>t. demandQuantity (snd (snd t)))
                         (snapshotCrops (aggregate clock rows)))
             = Fin (sum_list (map quantityValue (accepted rows)))
         \<and> sumInOrder (map c_quantity (accepted rows))
             = Fin (sum_list (map quantityValue (accepted rows))))"
proof (intro conjI ballI impI)
  show "distinct (map cropGroup (snapshotCrops (aggregate clock rows)))"
    by (rule aggregate_groups)
  show "cropGroup ` set (snapshotCrops (aggregate clock rows)) = groupKey ` set (accepted rows)"
    by (rule aggregate_groups)
  show "demandQuantity (snd (snd t))
          = sumInOrder (map c_quantity (groupRows (accepted rows) (cropGroup t)))"
    if "t \<in> set (snapshotCrops (aggregate clock rows))" for t
    using that by (rule aggregate_demand)
  show "demandQuantity (snd (snd t))
          = Fin (sum_list (map quantityValue (groupRows (accepted rows) (cropGroup t))))"
    if "exactSums (accepted rows)" "t \<in> set (snapshotCrops (aggregate clock rows))" for t
    using that(2,1) by (rule aggregate_demand_exact)
  show "sum_list (map (\<lambda>t. finiteValue (demandQuantity (snd (snd t))))
                   (snapshotCrops (aggregate clock rows)))
          = sum_list (map quantityValue (accepted rows))"
    if "exactSums (accepted rows)"
    using that by (rule aggregate_total_exact)
  show "sumInOrder (map (\<lambda>t. demandQuantity (snd (snd t))) (snapshotCrops (aggregate clock rows)))
          = Fin (sum_list (map quantityValue (accepted rows)))"
    if "exactSums (accepted rows)"
    using that by (rule aggregate_total_exact)
  show "sumInOrder (map c_quantity (accepted rows))
          = Fin (sum_list (map quantityValue (accepted rows)))"
    if ex: "exactSums (accepted rows)"
  proof -
    have "subseq (accepted rows) (accepted rows)" by (rule list_emb_refl) simp
    with ex show ?thesis by (rule sumInOrder_rows)
  qed
qed

theorem demand_is_sum_in_arrival_order_witness:
  "(''Karnataka'', ''Vegetables'', scenarioTomato) \<in> set (snapshotCrops (aggregate clock0 scenarioRows))
   \<and> exactSums (accepted scenarioRows)
   \<and> map c_quantity (accepted scenarioRows) = [Fin 100, Fin 50]
   \<and> demandQuantity scenarioTomato = sumInOrder (map c_quantity (accepted scenarioRows))
   \<and> demandQuantity scenarioTomato = Fin 150
   \<and> sum_list (map (\<lambda>t. finiteValue (demandQuantity (snd (snd t))))
                 (snapshotCrops (aggregate clock0 scenarioRows))) = 150
   \<and> sumInOrder (map c_quantity (accepted scenarioRows)) = Fin 150"
proof -
  note t = demand_is_sum_in_arrival_order[of clock0 scenarioRows]
  have mem: "(''Karnataka'', ''Vegetables'', scenarioTomato)
             \<in> set (snapshotCrops (aggregate clock0 scenarioRows))"
    by (simp add: aggregate_scenario)
  have ex: "exactSums (accepted scenarioRows)" by (rule accepted_scenario)
  from t mem
  have "demandQuantity (snd (snd (''Karnataka'', ''Vegetables'', scenarioTomato)))
          = sumInOrder (map c_quantity (groupRows (accepted scenarioRows)
                          (cropGroup (''Karnataka'', ''Vegetables'', scenarioTomato))))"
    by blast
  then have a: "demandQuantity scenarioTomato = sumInOrder (map c_quantity (accepted scenarioRows))"
    by (simp add: accepted_scenario(5,6))
  from t ex
  have b: "sum_list (map (\<lambda>t. finiteValue (demandQuantity (snd (snd t))))
                       (snapshotCrops (aggregate clock0 scenarioRows)))
             = sum_list (map quantityValue (accepted scenarioRows))"
    and c: "sumInOrder (map c_quantity (accepted scenarioRows))
             = Fin (sum_list (map quantityValue (accepted scenarioRows)))"
    by blast+
  from mem ex a b c show ?thesis
    by (simp add: accepted_scenario(1,4) scenarioTomato_def)
qed

theorem demand_rounding_counterexample:
  "map c_quantity (accepted roundedRows) = [Fin 9007199254740992, Fin 1, Fin 1]
   \<and> cropDemands (aggregate clock0 roundedRows)
       = [((''Karnataka'', ''Vegetables'', ''tomato''), Fin 9007199254740992)]
   \<and> sum_list (map quantityValue (accepted roundedRows)) = 9007199254740994
   \<and> roundDouble 9007199254740994 = Fin 9007199254740994
   \<and> map c_quantity (accepted regroupedRows) = [Fin 9007199254740992, Fin 1, Fin 1]
   \<and> cropDemands (aggregate clock0 regroupedRows)
       = [((''Karnataka'', ''Vegetables'', ''tomato''), Fin 9007199254740992),
          ((''Karnataka'', ''Vegetables'', ''onion''), Fin 2)]
   \<and> sumInOrder (map snd (cropDemands (aggregate clock0 regroupedRows))) = Fin 9007199254740994
   \<and> sumInOrder (map c_quantity (accepted regroupedRows)) = Fin 9007199254740992"
  by code_simp

section \<open>Completeness of the categories\<close>

lemma finalizeData_mem:
  assumes "s \<in> set (finalizeData clock b)"
  shows "\<exists>now k sd. (k, sd) \<in> set (stateDataMap b) \<and> s = finalizeState now sd"
proof -
  from assms obtain i k sd where "(i, k, sd) \<in> set (enumerate 0 (stateDataMap b))"
    "s = finalizeState (clock i) sd"
    by (auto simp: finalizeData_def)
  then show ?thesis by (auto simp: in_set_enumerate_eq) (metis nth_mem)
qed

text \<open>
  C3 (completeness). Every state of a snapshot lists exactly the categories of
  \<open>VALID_CATEGORIES\<close>, in that order; the count of a category is the length of its crop
  list, and a category for which the state has no accepted row has count 0 and no crops.
\<close>

theorem completeness_invariant:
  "\<forall>s \<in> set (aggregate clock rows).
     map cat_name (categories s) = VALID_CATEGORIES
     \<and> (\<forall>c \<in> set (categories s).
           cat_count c = length (crops c)
           \<and> ((\<forall>r \<in> set (accepted rows). c_state r = state s \<longrightarrow> c_category r \<noteq> cat_name c)
                \<longrightarrow> cat_count c = 0 \<and> crops c = []))"
proof
  fix s assume "s \<in> set (aggregate clock rows)"
  then have mem: "s \<in> set (finalizeData clock (build (accepted rows)))"
    by (simp add: aggregate_def processRows_build)
  have ok: "builder_ok (build (accepted rows))"
    using builder_ok_processRows[of rows] by (simp add: processRows_build)
  from finalizeData_mem[OF mem] obtain now k sd where
    sd: "(k, sd) \<in> set (stateDataMap (build (accepted rows)))" "s = finalizeState now sd"
    by blast
  with ok have sok: "state_ok k sd" by (auto simp: builder_ok_def)
  have cats: "categories s = map (finalizeCategory sd) VALID_CATEGORIES"
    and st: "state s = k"
    using sd(2) sok by (simp_all add: finalizeState_fields state_ok_def)
  have names: "map cat_name (categories s) = VALID_CATEGORIES"
    unfolding cats using finalizeCategory_name[OF sok] by (simp add: map_idI)
  have each: "cat_count c = length (crops c)
              \<and> ((\<forall>r \<in> set (accepted rows). c_state r = state s \<longrightarrow> c_category r \<noteq> cat_name c)
                   \<longrightarrow> cat_count c = 0 \<and> crops c = [])"
    if c: "c \<in> set (categories s)" for c
  proof -
    from c cats obtain n where n: "n \<in> set VALID_CATEGORIES" "c = finalizeCategory sd n"
      by auto
    have cnt: "cat_count c = length (crops c)"
      unfolding n(2) by (rule finalizeCategory_count)
    have "\<exists>r \<in> set (accepted rows). c_state r = state s \<and> c_category r = cat_name c"
      if ne: "crops c \<noteq> []"
    proof -
      from ne obtain cr where cr: "cr \<in> set (crops c)" by (cases "crops c") auto
      with c have "(state s, cat_name c, cr) \<in> set (snapshotCrops (finalizeData clock (build (accepted rows))))"
        using mem unfolding snapshotCrops_def by force
      then obtain key where "lookupCrop (build (accepted rows)) (state s) (cat_name c) key = Some cr"
        using snapshotCrops_iff[OF ok] by blast
      then have "lookupCrop (build (accepted rows)) (state s) (cat_name c) key \<noteq> None" by simp
      then have "(state s, cat_name c, key) \<in> groupKey ` set (accepted rows)"
        by (simp add: lookupCrop_build_None)
      then show ?thesis by (auto simp: groupKey_def)
    qed
    with cnt show ?thesis by auto
  qed
  from names each
  show "map cat_name (categories s) = VALID_CATEGORIES
        \<and> (\<forall>c \<in> set (categories s).
              cat_count c = length (crops c)
              \<and> ((\<forall>r \<in> set (accepted rows). c_state r = state s \<longrightarrow> c_category r \<noteq> cat_name c)
                   \<longrightarrow> cat_count c = 0 \<and> crops c = []))"
    by blast
qed

lemma aggregate_scenario_full: "aggregate clock0 scenarioRows = [scenarioState]"
  by code_simp

lemma accepted_scenario_full:
  "accepted scenarioRows =
     [\<lparr>c_state = ''Karnataka'', c_category = ''Vegetables'', c_cropName = ''Tomato'',
       c_scientificName = [], c_district = ''Bangalore'', c_quantity = Fin 100,
       c_suitability = ''High''\<rparr>,
      \<lparr>c_state = ''Karnataka'', c_category = ''Vegetables'', c_cropName = ''Tomato'',
       c_scientificName = [], c_district = ''Mysore'', c_quantity = Fin 50,
       c_suitability = ''Medium''\<rparr>]"
  by code_simp

theorem completeness_invariant_witness:
  "scenarioState \<in> set (aggregate clock0 scenarioRows)
   \<and> map cat_name (categories scenarioState) = VALID_CATEGORIES
   \<and> emptyCategory ''Fruits'' \<in> set (categories scenarioState)
   \<and> cat_count (emptyCategory ''Fruits'') = 0 \<and> crops (emptyCategory ''Fruits'') = []"
proof -
  have mem: "scenarioState \<in> set (aggregate clock0 scenarioRows)"
    by (simp add: aggregate_scenario_full)
  have fruits: "emptyCategory ''Fruits'' \<in> set (categories scenarioState)"
    by (simp add: scenarioState_def VALID_CATEGORIES_def)
  have none: "\<forall>r \<in> set (accepted scenarioRows).
                c_state r = state scenarioState \<longrightarrow> c_category r \<noteq> cat_name (emptyCategory ''Fruits'')"
    by (simp add: accepted_scenario_full emptyCategory_def)
  from completeness_invariant[of clock0 scenarioRows] mem fruits none
  show ?thesis by blast
qed

section \<open>Region facts\<close>

text \<open>
  C4 (region dedup). In the snapshot of any sequence of rows no crop has two region facts
  with the same district and suitability, and the fact of every accepted row is in the
  region list of its crop: facts for one district at different suitability values are all
  kept.
\<close>

theorem region_dedup:
  "(\<forall>(s, c, cr) \<in> set (snapshotCrops (aggregate clock rows)).
      distinct (map regionKey (regionalSuitability cr)))
   \<and> (\<forall>r \<in> set (accepted rows).
         \<exists>cr. (c_state r, c_category r, cr) \<in> set (snapshotCrops (aggregate clock rows))
              \<and> cropKeyOf (cropName cr) = cropKeyOf (c_cropName r)
              \<and> suitabilityEntry r \<in> set (regionalSuitability cr))"
proof (intro conjI ballI)
  have ok: "builder_ok (build (accepted rows))"
    using builder_ok_processRows[of rows] by (simp add: processRows_build)
  {
    fix x assume x: "x \<in> set (snapshotCrops (aggregate clock rows))"
    obtain s c cr where xeq: "x = (s, c, cr)" by (cases x)
    from x xeq obtain k where k: "lookupCrop (build (accepted rows)) s c k = Some cr"
      using snapshotCrops_iff[OF ok] by (auto simp: aggregate_def processRows_build)
    show "case x of (s, c, cr) \<Rightarrow> distinct (map regionKey (regionalSuitability cr))"
      using lookupCrop_ok[OF ok k] by (simp add: xeq crop_ok_def)
  }
  {
    fix r assume r: "r \<in> set (accepted rows)"
    let ?k = "cropKeyOf (c_cropName r)"
    have "(c_state r, c_category r, ?k) \<in> groupKey ` set (accepted rows)"
      using r by (force simp: groupKey_def)
    then have "lookupCrop (build (accepted rows)) (c_state r) (c_category r) ?k \<noteq> None"
      by (simp add: lookupCrop_build_None)
    then obtain cr where
      cr: "lookupCrop (build (accepted rows)) (c_state r) (c_category r) ?k = Some cr"
      by blast
    have "suitabilityEntry r \<in> set (regionalSuitability cr)"
      using lookupCrop_build_Some[OF accepted_valid cr] r by (auto simp: groupKey_def)
    moreover have "cropKeyOf (cropName cr) = ?k"
      using lookupCrop_ok[OF ok cr] by (simp add: crop_ok_def)
    moreover have "(c_state r, c_category r, cr) \<in> set (snapshotCrops (aggregate clock rows))"
      using snapshotCrops_iff[OF ok] cr by (auto simp: aggregate_def processRows_build)
    ultimately
    show "\<exists>cr. (c_state r, c_category r, cr) \<in> set (snapshotCrops (aggregate clock rows))
              \<and> cropKeyOf (cropName cr) = cropKeyOf (c_cropName r)
              \<and> suitabilityEntry r \<in> set (regionalSuitability cr)"
      by blast
  }
qed

lemma aggregate_dedup:
  "snapshotCrops (aggregate clock0 dedupRows) = [(''Karnataka'', ''Vegetables'', dedupTomato)]"
  by code_simp

theorem region_dedup_witness:
  "(''Karnataka'', ''Vegetables'', dedupTomato) \<in> set (snapshotCrops (aggregate clock0 dedupRows))
   \<and> distinct (map regionKey (regionalSuitability dedupTomato))
   \<and> map regionKey (regionalSuitability dedupTomato)
       = [(''Bangalore'', ''High''), (''Bangalore'', ''Low'')]"
proof -
  have mem: "(''Karnataka'', ''Vegetables'', dedupTomato) \<in> set (snapshotCrops (aggregate clock0 dedupRows))"
    by (simp add: aggregate_dedup)
  from region_dedup[of clock0 dedupRows] mem
  have "distinct (map regionKey (regionalSuitability dedupTomato))" by blast
  with mem show ?thesis by (simp add: dedupTomato_def regionKey_def)
qed

section \<open>The normalizer\<close>

lemma validCategoryOf_None:
  "validCategoryOf (trim x) n = None
   \<longleftrightarrow> (\<forall>cat \<in> set VALID_CATEGORIES. toLowerCase cat \<noteq> toLowerCase (trim x))
       \<and> mapCategoryToValid (trim x) n = None"
  unfolding validCategoryOf_def Let_def
  by (auto simp: trim_toLowerCase trim_trim find_None_iff split: option.splits dest: find_SomeD)

lemma normalizeRow_None: "normalizeRow r f = None \<longleftrightarrow> spec_rejects r f"
proof -
  have cat: "rowCategory r = trim (rowCategory r)"
    by (simp add: rowCategory_def trim_trim)
  have v: "validCategoryOf (rowCategory r) (rowCropName r f) = None
           \<longleftrightarrow> (\<forall>cat \<in> set VALID_CATEGORIES. toLowerCase cat \<noteq> toLowerCase (rowCategory r))
               \<and> mapCategoryToValid (rowCategory r) (rowCropName r f) = None"
    using validCategoryOf_None[of "rowCategory r" "rowCropName r f"] cat by simp
  show ?thesis
  proof (cases "validCategoryOf (rowCategory r) (rowCropName r f)")
    case None
    with v show ?thesis by (simp add: normalizeRow_def spec_rejects_def Let_def)
  next
    case (Some c)
    then have "c \<in> set VALID_CATEGORIES" by (rule validCategoryOf_valid)
    with Some v show ?thesis by (simp add: normalizeRow_def spec_rejects_def Let_def)
  qed
qed

lemma normalizeRow_Some:
  assumes "normalizeRow r f = Some c"
  shows "c_state c = rowState r \<and> c_cropName c = rowCropName r f \<and> c_quantity c = rowQuantity r
         \<and> c_district c = rowDistrict r
         \<and> validCategoryOf (rowCategory r) (rowCropName r f) = Some (c_category c)
         \<and> c_category c \<in> set VALID_CATEGORIES"
  using assms unfolding normalizeRow_def Let_def
  by (auto split: if_splits option.splits)

lemma addObservation_has_key:
  "\<exists>s \<in> set (regionalSuitability (addObservation c old)).
      district s = c_district c \<and> suitability s = suitability (suitabilityEntry c)"
proof (cases "find (\<lambda>s. district s = c_district c \<and> suitability s = suitability (suitabilityEntry c)) (regionalSuitability old)")
  case None
  then show ?thesis by (simp add: addObservation_def Let_def suitabilityEntry_def)
next
  case (Some s)
  then show ?thesis by (auto simp: addObservation_def Let_def dest: find_SomeD)
qed

text \<open>
  C6. \<open>processRow\<close> produces no record exactly when the row misses its state, category or
  crop name, or its quantity parses to at most 0, or its category matches neither the
  allowed set nor the fallback classifier; then the aggregation state is unchanged, in
  particular for a quantity of 0. No case of \<open>processRow\<close> raises an error. A row that is
  not rejected is merged: afterwards its crop exists, holds a fact for the row's district
  and suitability, and its demand has grown by the row's quantity.
\<close>

theorem normalizer_rejects_exactly:
  "(normalizeRow r f = None \<longleftrightarrow> spec_rejects r f)
   \<and> (spec_rejects r f \<longrightarrow> processRow r f b = b)
   \<and> (rowQuantity r = Fin 0 \<longrightarrow> processRow r f b = b)
   \<and> (\<not> spec_rejects r f \<longrightarrow>
        (\<exists>c cr. normalizeRow r f = Some c \<and> processRow r f b = mergeRecord c b
           \<and> c_state c = rowState r \<and> c_cropName c = rowCropName r f
           \<and> c_quantity c = rowQuantity r \<and> c_category c \<in> set VALID_CATEGORIES
           \<and> lookupCrop (processRow r f b) (c_state c) (c_category c) (cropKeyOf (c_cropName c))
               = Some cr
           \<and> (\<exists>s \<in> set (regionalSuitability cr).
                 district s = rowDistrict r \<and> suitability s = suitability (suitabilityEntry c))
           \<and> demandQuantity cr
               = js_add (case lookupCrop b (c_state c) (c_category c) (cropKeyOf (c_cropName c)) of
                           None \<Rightarrow> Fin 0 | Some old \<Rightarrow> demandQuantity old)
                   (rowQuantity r)))"
proof (intro conjI impI)
  show "normalizeRow r f = None \<longleftrightarrow> spec_rejects r f" by (rule normalizeRow_None)
  show "processRow r f b = b" if "spec_rejects r f"
    using that by (simp add: processRow_def normalizeRow_None[symmetric])
  show "processRow r f b = b" if "rowQuantity r = Fin 0"
  proof -
    from that have "spec_rejects r f" by (simp add: spec_rejects_def)
    then show ?thesis by (simp add: processRow_def normalizeRow_None[symmetric])
  qed
  show "\<exists>c cr. normalizeRow r f = Some c \<and> processRow r f b = mergeRecord c b
           \<and> c_state c = rowState r \<and> c_cropName c = rowCropName r f
           \<and> c_quantity c = rowQuantity r \<and> c_category c \<in> set VALID_CATEGORIES
           \<and> lookupCrop (processRow r f b) (c_state c) (c_category c) (cropKeyOf (c_cropName c))
               = Some cr
           \<and> (\<exists>s \<in> set (regionalSuitability cr).
                 district s = rowDistrict r \<and> suitability s = suitability (suitabilityEntry c))
           \<and> demandQuantity cr
               = js_add (case lookupCrop b (c_state c) (c_category c) (cropKeyOf (c_cropName c)) of
                           None \<Rightarrow> Fin 0 | Some old \<Rightarrow> demandQuantity old)
                   (rowQuantity r)"
    if "\<not> spec_rejects r f"
  proof -
    from that obtain c where c: "normalizeRow r f = Some c"
      by (auto simp: normalizeRow_None[symmetric])
    note f = normalizeRow_Some[OF c]
    let ?old = "case lookupCrop b (c_state c) (c_category c) (cropKeyOf (c_cropName c)) of
                  None \<Rightarrow> newCrop (nextCropId b) c | Some cr \<Rightarrow> cr"
    have p: "processRow r f b = mergeRecord c b" by (simp add: processRow_def c)
    have l: "lookupCrop (mergeRecord c b) (c_state c) (c_category c) (cropKeyOf (c_cropName c))
             = Some (addObservation c ?old)"
      by (simp add: lookupCrop_merge groupKey_def)
    have d: "demandQuantity (addObservation c ?old)
             = js_add (case lookupCrop b (c_state c) (c_category c) (cropKeyOf (c_cropName c)) of
                         None \<Rightarrow> Fin 0 | Some old \<Rightarrow> demandQuantity old)
                 (rowQuantity r)"
      using f by (simp add: addObservation_demand newCrop_def split: option.splits)
    from addObservation_has_key[of c ?old] f p l d c show ?thesis
      by (intro exI[of _ c] exI[of _ "addObservation c ?old"]) simp
  qed
qed

lemma spec_rejects_zero: "spec_rejects zeroQuantityRow ''Tomato''"
  by code_simp

lemma rowQuantity_zero: "rowQuantity zeroQuantityRow = Fin 0"
  by code_simp

lemma spec_accepts_tomato: "\<not> spec_rejects tomatoBangalore ''Tomato''"
  by code_simp

theorem normalizer_rejects_exactly_witness:
  "spec_rejects zeroQuantityRow ''Tomato'' \<and> rowQuantity zeroQuantityRow = Fin 0
   \<and> normalizeRow zeroQuantityRow ''Tomato'' = None
   \<and> processRow zeroQuantityRow ''Tomato'' (processRows scenarioRows) = processRows scenarioRows
   \<and> \<not> spec_rejects tomatoBangalore ''Tomato''
   \<and> normalizeRow tomatoBangalore ''Tomato'' \<noteq> None"
  using normalizer_rejects_exactly[of zeroQuantityRow "''Tomato''" "processRows scenarioRows"]
        normalizer_rejects_exactly[of tomatoBangalore "''Tomato''" initBuilder]
        spec_rejects_zero rowQuantity_zero spec_accepts_tomato
  by auto

section \<open>Alias resolution\<close>

lemma orElse_two: "orElse a (orElse b d) = firstNonEmpty [a, b] d"
  by (cases a; cases b) (simp_all add: orElse_def firstNonEmpty_def)

lemma orElse_three: "orElse a (orElse b (orElse c d)) = firstNonEmpty [a, b, c] d"
  by (cases a; cases b; cases c) (simp_all add: orElse_def firstNonEmpty_def)

text \<open>
  C8, as the code has it. Each field is read from the first alias whose raw value is a
  non-empty string, before trimming: a first alias that holds only white space is selected
  and trims to the empty string, the second alias is not consulted.
\<close>

theorem alias_first_raw_nonempty:
  "rowState r = trim (firstNonEmpty [r ''state'', r ''State Name''] [])
   \<and> rowCategory r = trim (firstNonEmpty [r ''category'', r ''Group''] [])
   \<and> rowDistrict r = trim (firstNonEmpty [r ''district'', r ''District Name''] [])
   \<and> rowScientificName r
       = trim (firstNonEmpty [r ''scientific_name'', r ''Scientific Name''] [])
   \<and> rowQuantity r
       = numOrZero (parseFloat (firstNonEmpty
           [r ''demand_quantity'', r ''Arrivals (Tonnes)'', r ''Arrivals''] ''0''))
   \<and> rowSuitability r = trim (firstNonEmpty [r ''suitability'', r ''Suitability''] ''Medium'')"
  unfolding rowState_def rowCategory_def rowDistrict_def rowScientificName_def rowQuantity_def
    rowSuitability_def
  by (simp only: orElse_three) (simp only: orElse_two simp_thms)

theorem alias_first_raw_nonempty_witness:
  "firstNonEmpty [blankStateRow ''state'', blankStateRow ''State Name''] [] = ''   ''
   \<and> rowState blankStateRow = trim ''   ''"
proof -
  have "firstNonEmpty [blankStateRow ''state'', blankStateRow ''State Name''] [] = ''   ''"
    by (simp add: firstNonEmpty_def blankStateRow_def)
  with alias_first_raw_nonempty[of blankStateRow] show ?thesis by simp
qed

theorem alias_blank_first_counterexample:
  "blankStateRow ''state'' = Some ''   '' \<and> blankStateRow ''State Name'' = Some ''Karnataka''
   \<and> rowState blankStateRow = [] \<and> rowState blankStateRow \<noteq> ''Karnataka''
   \<and> normalizeRow blankStateRow ''Tomato'' = None"
  by code_simp

section \<open>The district projection\<close>

lemma concat_map_filter:
  "concat (map g (List.map_filter f xs))
     = concat (map (\<lambda>x. case f x of None \<Rightarrow> [] | Some y \<Rightarrow> g y) xs)"
  by (induction xs) (auto simp: List.map_filter_simps split: option.splits)

lemma map_filter_mem: "y \<in> set (List.map_filter f xs) \<Longrightarrow> \<exists>x \<in> set xs. f x = Some y"
  by (auto simp: List.map_filter_def)

lemma cityCategory_set:
  "(case cityCategory cn s cf cat of
      None \<Rightarrow> []
    | Some cc \<Rightarrow> map (\<lambda>cr. (s, cat_name cc, cr)) (crops cc))
   = map (emittedCrop cn)
       (filter (selectedCrop cn None cf) (map (\<lambda>cr. (s, cat_name cat, cr)) (crops cat)))"
proof (cases "filteredOut cf (cat_name cat)")
  case True
  then have "filter (selectedCrop cn None cf) (map (\<lambda>cr. (s, cat_name cat, cr)) (crops cat)) = []"
    by (auto simp: filter_empty_conv selectedCrop_def)
  with True show ?thesis by (simp add: cityCategory_def)
next
  case False
  then have "filter (selectedCrop cn None cf) (map (\<lambda>cr. (s, cat_name cat, cr)) (crops cat))
             = map (\<lambda>cr. (s, cat_name cat, cr))
                 (filter (\<lambda>c. list_ex (regionMatches cn s) (regionalSuitability c)) (crops cat))"
    by (simp add: filter_map comp_def selectedCrop_def filteredOut_def)
  with False show ?thesis
    by (simp add: cityCategory_def Let_def emittedCrop_def comp_def)
qed

lemma snapshotCrops_concat: "snapshotCrops snap = concat (map entryCrops snap)"
  by (simp add: snapshotCrops_def entryCrops_def[abs_def])

lemma entryCrops_state: "t \<in> set (entryCrops st) \<Longrightarrow> fst t = state st"
  by (auto simp: entryCrops_def)

lemma cityState_crops:
  "(case cityState cn sf cf st of None \<Rightarrow> [] | Some e \<Rightarrow> entryCrops e)
   = map (emittedCrop cn) (filter (selectedCrop cn sf cf) (entryCrops st))"
proof (cases "filteredOut sf (state st)")
  case True
  then have "filter (selectedCrop cn sf cf) (entryCrops st) = []"
    by (auto simp: filter_empty_conv selectedCrop_def dest: entryCrops_state)
  with True show ?thesis by (simp add: cityState_def)
next
  case False
  let ?cats = "List.map_filter (cityCategory cn (state st) cf) (categories st)"
  have sel: "filter (selectedCrop cn sf cf) (entryCrops st)
             = filter (selectedCrop cn None cf) (entryCrops st)"
    using False
    by (intro filter_cong refl) (auto simp: selectedCrop_def filteredOut_def dest: entryCrops_state)
  have "concat (map (\<lambda>c. map (\<lambda>cr. (state st, cat_name c, cr)) (crops c)) ?cats)
          = map (emittedCrop cn) (filter (selectedCrop cn None cf) (entryCrops st))"
    unfolding concat_map_filter cityCategory_set entryCrops_def
    by (simp add: map_concat filter_concat comp_def)
  then have cats: "concat (map (\<lambda>c. map (\<lambda>cr. (state st, cat_name c, cr)) (crops c)) ?cats)
          = map (emittedCrop cn) (filter (selectedCrop cn sf cf) (entryCrops st))"
    by (simp only: sel)
  show ?thesis
  proof (cases "?cats = []")
    case True
    with cats False show ?thesis by (simp add: cityState_def Let_def)
  next
    case nonempty: False
    with cats False show ?thesis by (simp add: cityState_def Let_def entryCrops_def)
  qed
qed

lemma cityCategory_nonempty: "cityCategory cn s cf cat = Some cc \<Longrightarrow> crops cc \<noteq> []"
  unfolding cityCategory_def Let_def by (auto split: if_splits)

lemma cityState_nonempty:
  assumes "cityState cn sf cf st = Some e"
  shows "entryCrops e \<noteq> []"
proof -
  let ?cats = "List.map_filter (cityCategory cn (state st) cf) (categories st)"
  from assms have e: "categories e = ?cats" "?cats \<noteq> []"
    unfolding cityState_def Let_def by (auto split: if_splits)
  then obtain cc rest where c: "?cats = cc # rest" by (cases ?cats) auto
  then have "cc \<in> set ?cats" by simp
  then obtain cat where "cityCategory cn (state st) cf cat = Some cc"
    by (blast dest: map_filter_mem)
  then have "crops cc \<noteq> []" by (rule cityCategory_nonempty)
  with e c show ?thesis by (simp add: entryCrops_def)
qed

lemma projection_crops:
  "snapshotCrops (List.map_filter (cityState cn sf cf) snap)
     = map (emittedCrop cn) (retainedCrops cn sf cf snap)"
  unfolding snapshotCrops_concat retainedCrops_def concat_map_filter cityState_crops
  by (simp add: map_concat filter_concat comp_def)

lemma projection_empty_iff:
  "List.map_filter (cityState cn sf cf) snap = [] \<longleftrightarrow> retainedCrops cn sf cf snap = []"
proof
  assume "List.map_filter (cityState cn sf cf) snap = []"
  with projection_crops[of cn sf cf snap] show "retainedCrops cn sf cf snap = []"
    by (simp add: snapshotCrops_def)
next
  assume r: "retainedCrops cn sf cf snap = []"
  show "List.map_filter (cityState cn sf cf) snap = []"
  proof (rule ccontr)
    assume "List.map_filter (cityState cn sf cf) snap \<noteq> []"
    then obtain e rest where e: "List.map_filter (cityState cn sf cf) snap = e # rest"
      by (cases "List.map_filter (cityState cn sf cf) snap") auto
    then have "e \<in> set (List.map_filter (cityState cn sf cf) snap)" by simp
    then obtain st where "st \<in> set snap" "cityState cn sf cf st = Some e"
      by (blast dest: map_filter_mem)
    then have "entryCrops e \<noteq> []" by (simp add: cityState_nonempty)
    then have "snapshotCrops (List.map_filter (cityState cn sf cf) snap) \<noteq> []"
      by (simp add: e snapshotCrops_concat)
    with r projection_crops[of cn sf cf snap] show False by simp
  qed
qed

lemma getCityDemand_Ok:
  "(\<exists>res. getCityDemand d cityParam sq cq = Ok200 res)
   \<longleftrightarrow> trim cityParam \<noteq> []
       \<and> (\<exists>snap. d = Some snap
             \<and> retainedCrops (trim cityParam) (queryFilter sq) (queryFilter cq) snap \<noteq> [])"
proof (cases d)
  case None
  then show ?thesis by (simp add: getCityDemand_def Let_def)
next
  case (Some snap)
  have "retainedCrops (trim cityParam) (queryFilter sq) (queryFilter cq) [] = []"
    by (simp add: retainedCrops_def snapshotCrops_def)
  then show ?thesis
    unfolding getCityDemand_def Let_def Some
    by (auto simp: projection_empty_iff)
qed

lemma getCityDemand_data:
  assumes "getCityDemand (Some snap) cityParam sq cq = Ok200 res"
  shows "res_data res
         = List.map_filter (cityState (trim cityParam) (queryFilter sq) (queryFilter cq)) snap"
  using assms unfolding getCityDemand_def Let_def
  by (auto split: if_splits)

text \<open>
  C5. The district projection answers with the \<open>NotFound\<close> response exactly when the district
  is given, a snapshot with at least one state is loaded, and no crop is retained by the
  district match and the state and category filters; it answers with a result exactly
  when some crop is retained. The two responses are different values.
\<close>

theorem projection_not_found_iff:
  "(getCityDemand d cityParam sq cq = NotFound404
      \<longleftrightarrow> trim cityParam \<noteq> []
          \<and> (\<exists>snap. d = Some snap \<and> snap \<noteq> []
                \<and> retainedCrops (trim cityParam) (queryFilter sq) (queryFilter cq) snap = []))
   \<and> ((\<exists>res. getCityDemand d cityParam sq cq = Ok200 res)
      \<longleftrightarrow> trim cityParam \<noteq> []
          \<and> (\<exists>snap. d = Some snap
                \<and> retainedCrops (trim cityParam) (queryFilter sq) (queryFilter cq) snap \<noteq> []))
   \<and> (\<forall>res. NotFound404 \<noteq> Ok200 (res :: cityResult))"
proof (intro conjI)
  show "getCityDemand d cityParam sq cq = NotFound404
      \<longleftrightarrow> trim cityParam \<noteq> []
          \<and> (\<exists>snap. d = Some snap \<and> snap \<noteq> []
                \<and> retainedCrops (trim cityParam) (queryFilter sq) (queryFilter cq) snap = [])"
    unfolding getCityDemand_def Let_def
    by (cases d) (auto simp: projection_empty_iff)
  show "(\<exists>res. getCityDemand d cityParam sq cq = Ok200 res)
      \<longleftrightarrow> trim cityParam \<noteq> []
          \<and> (\<exists>snap. d = Some snap
                \<and> retainedCrops (trim cityParam) (queryFilter sq) (queryFilter cq) snap \<noteq> [])"
    by (rule getCityDemand_Ok)
  show "\<forall>res. NotFound404 \<noteq> Ok200 (res :: cityResult)" by simp
qed

lemma scenario_atlantis:
  "retainedCrops ''Atlantis'' None None (aggregate clock0 scenarioRows) = []"
  "trim ''Atlantis'' = ''Atlantis''" "queryFilter None = None"
  by code_simp+

lemma scenario_bangalore:
  "retainedCrops ''Bangalore'' None None (aggregate clock0 scenarioRows)
     = [(''Karnataka'', ''Vegetables'', scenarioTomato)]"
  "trim ''Bangalore'' = ''Bangalore''"
  by code_simp+

theorem projection_not_found_iff_witness:
  "getCityDemand (Some (aggregate clock0 scenarioRows)) ''Atlantis'' None None = NotFound404
   \<and> retainedCrops ''Atlantis'' None None (aggregate clock0 scenarioRows) = []
   \<and> (\<exists>res. getCityDemand (Some (aggregate clock0 scenarioRows)) ''Bangalore'' None None = Ok200 res)"
proof -
  have ne: "aggregate clock0 scenarioRows \<noteq> []" by (simp add: aggregate_scenario_full)
  have "getCityDemand (Some (aggregate clock0 scenarioRows)) ''Atlantis'' None None = NotFound404"
    using projection_not_found_iff[of "Some (aggregate clock0 scenarioRows)" "''Atlantis''" None None] ne
    by (simp add: scenario_atlantis)
  moreover
  have "\<exists>res. getCityDemand (Some (aggregate clock0 scenarioRows)) ''Bangalore'' None None = Ok200 res"
    using projection_not_found_iff[of "Some (aggregate clock0 scenarioRows)" "''Bangalore''" None None]
    by (simp add: scenario_bangalore scenario_atlantis(3))
  ultimately show ?thesis by (simp add: scenario_atlantis)
qed

lemma regionsScoped_aggregate: "regionsScoped (aggregate clock rows)"
  unfolding regionsScoped_def
proof (intro ballI)
  fix t r
  assume t: "t \<in> set (snapshotCrops (aggregate clock rows))"
    and r: "r \<in> set (regionalSuitability (snd (snd t)))"
  obtain s c cr where teq: "t = (s, c, cr)" by (cases t)
  have ok: "builder_ok (processRows rows)" by (rule builder_ok_processRows)
  from t teq obtain k where "lookupCrop (processRows rows) s c k = Some cr"
    using snapshotCrops_iff[OF ok] by (auto simp: aggregate_def)
  from lookupCrop_ok[OF ok this] r teq show "rf_state r = fst t"
    by (simp add: crop_ok_def)
qed

lemma list_ex_find: "list_ex P xs \<Longrightarrow> \<exists>x. find P xs = Some x \<and> x \<in> set xs \<and> P x"
  by (induction xs) auto

lemma selectedCrop_ignoring_case: "selectedCrop cn sf cf = selected_ignoring_case cn sf cf"
  by (auto simp: fun_eq_iff selectedCrop_def selected_ignoring_case_def regionMatches_def
      list_ex_iff)

lemma scoped_selected:
  assumes "regionsScoped snap" and "t \<in> set (snapshotCrops snap)"
  shows "selected_ignoring_case cn sf cf t = spec_selected cn sf cf t"
proof -
  obtain s c cr where teq: "t = (s, c, cr)" by (cases t)
  from assms teq have "\<forall>r \<in> set (regionalSuitability cr). rf_state r = s"
    by (auto simp: regionsScoped_def)
  then show ?thesis
    unfolding teq by (auto simp: selected_ignoring_case_def spec_selected_def)
qed

text \<open>
  C2, as the code has it. The crops that a district projection emits are, in order, the
  crops of the snapshot that pass the filters and have a region fact whose district equals
  the queried district and whose recorded state equals the name of the containing state,
  both ignoring case. For each of them the emitted record is the crop with all fields
  unchanged, so with its state-wide \<open>demandQuantity\<close>, except that its region list is the
  single fact that is the crop's first such fact. Crops without such a fact are not
  emitted. On a snapshot whose facts all record the exact name of their state the selected
  crops are those of the claim, and every snapshot of \<open>finalizeData\<close> is such a snapshot.
\<close>

theorem projection_emits_matching_crops:
  assumes "getCityDemand (Some snap) cityParam sq cq = Ok200 res"
  shows "snapshotCrops (res_data res)
           = map (emittedCrop (trim cityParam))
               (filter (selected_ignoring_case (trim cityParam) (queryFilter sq) (queryFilter cq))
                  (snapshotCrops snap))
         \<and> (\<forall>t \<in> set (filter (selected_ignoring_case (trim cityParam) (queryFilter sq)
                                   (queryFilter cq))
                          (snapshotCrops snap)).
               \<exists>r. find (\<lambda>r. toLowerCase (district r) = toLowerCase (trim cityParam)
                              \<and> toLowerCase (rf_state r) = toLowerCase (fst t))
                      (regionalSuitability (snd (snd t))) = Some r
                   \<and> toLowerCase (district r) = toLowerCase (trim cityParam)
                   \<and> toLowerCase (rf_state r) = toLowerCase (fst t)
                   \<and> emittedCrop (trim cityParam) t
                       = (fst t, fst (snd t), (snd (snd t))\<lparr>regionalSuitability := [r]\<rparr>))
         \<and> (regionsScoped snap \<longrightarrow>
               filter (selected_ignoring_case (trim cityParam) (queryFilter sq) (queryFilter cq))
                 (snapshotCrops snap)
               = filter (spec_selected (trim cityParam) (queryFilter sq) (queryFilter cq))
                   (snapshotCrops snap))
         \<and> regionsScoped (aggregate clock rows)"
proof (intro conjI ballI impI)
  let ?cn = "trim cityParam" and ?sf = "queryFilter sq" and ?cf = "queryFilter cq"
  show "snapshotCrops (res_data res)
           = map (emittedCrop ?cn) (filter (selected_ignoring_case ?cn ?sf ?cf) (snapshotCrops snap))"
    using getCityDemand_data[OF assms(1)] projection_crops[of ?cn ?sf ?cf snap]
    by (simp add: retainedCrops_def selectedCrop_ignoring_case)
next
  let ?cn = "trim cityParam" and ?sf = "queryFilter sq" and ?cf = "queryFilter cq"
  fix t assume "t \<in> set (filter (selected_ignoring_case ?cn ?sf ?cf) (snapshotCrops snap))"
  then have sel: "selected_ignoring_case ?cn ?sf ?cf t" by simp
  obtain s c cr where teq: "t = (s, c, cr)" by (cases t)
  from sel teq have "list_ex (regionMatches ?cn s) (regionalSuitability cr)"
    by (auto simp: selected_ignoring_case_def list_ex_iff regionMatches_def)
  then obtain r where r: "find (regionMatches ?cn s) (regionalSuitability cr) = Some r"
    "regionMatches ?cn s r"
    by (blast dest: list_ex_find)
  have "cityCrop ?cn s cr = cr\<lparr>regionalSuitability := [r]\<rparr>"
    by (simp add: cityCrop_def r(1))
  with r
  show "\<exists>r. find (\<lambda>r. toLowerCase (district r) = toLowerCase ?cn
                      \<and> toLowerCase (rf_state r) = toLowerCase (fst t))
               (regionalSuitability (snd (snd t))) = Some r
            \<and> toLowerCase (district r) = toLowerCase ?cn
            \<and> toLowerCase (rf_state r) = toLowerCase (fst t)
            \<and> emittedCrop ?cn t = (fst t, fst (snd t), (snd (snd t))\<lparr>regionalSuitability := [r]\<rparr>)"
    by (simp add: teq emittedCrop_def regionMatches_def[abs_def])
next
  let ?cn = "trim cityParam" and ?sf = "queryFilter sq" and ?cf = "queryFilter cq"
  assume "regionsScoped snap"
  then show "filter (selected_ignoring_case ?cn ?sf ?cf) (snapshotCrops snap)
             = filter (spec_selected ?cn ?sf ?cf) (snapshotCrops snap)"
    using scoped_selected by (intro filter_cong refl) blast
next
  show "regionsScoped (aggregate clock rows)" by (rule regionsScoped_aggregate)
qed

lemma scenario_projection:
  "getCityDemand (Some (aggregate clock0 scenarioRows)) ''Bangalore'' None None
     = Ok200 scenarioBangalore"
  by code_simp

lemma scenario_selected:
  "filter (selected_ignoring_case ''Bangalore'' None None) (snapshotCrops (aggregate clock0 scenarioRows))
     = [(''Karnataka'', ''Vegetables'', scenarioTomato)]"
  by code_simp

theorem projection_emits_matching_crops_witness:
  "getCityDemand (Some (aggregate clock0 scenarioRows)) ''Bangalore'' None None
     = Ok200 scenarioBangalore
   \<and> regionsScoped (aggregate clock0 scenarioRows)
   \<and> filter (spec_selected ''Bangalore'' None None) (snapshotCrops (aggregate clock0 scenarioRows))
       = [(''Karnataka'', ''Vegetables'', scenarioTomato)]
   \<and> snapshotCrops (res_data scenarioBangalore)
       = [(''Karnataka'', ''Vegetables'', scenarioTomato\<lparr>regionalSuitability := [bangaloreHigh]\<rparr>)]
   \<and> demandQuantity (scenarioTomato\<lparr>regionalSuitability := [bangaloreHigh]\<rparr>) = Fin 150
   \<and> demandQuantity scenarioTomato = Fin 150"
proof -
  note t = projection_emits_matching_crops[OF scenario_projection, of clock0 scenarioRows]
  from t have sc: "regionsScoped (aggregate clock0 scenarioRows)" by blast
  with t have "filter (selected_ignoring_case (trim ''Bangalore'') (queryFilter None) (queryFilter None))
                 (snapshotCrops (aggregate clock0 scenarioRows))
               = filter (spec_selected (trim ''Bangalore'') (queryFilter None) (queryFilter None))
                   (snapshotCrops (aggregate clock0 scenarioRows))"
    by blast
  then have "filter (spec_selected ''Bangalore'' None None) (snapshotCrops (aggregate clock0 scenarioRows))
             = [(''Karnataka'', ''Vegetables'', scenarioTomato)]"
    by (simp add: scenario_bangalore scenario_atlantis(3) scenario_selected)
  with sc scenario_projection show ?thesis
    by (simp add: scenarioBangalore_def scenarioTomato_def snapshotCrops_def)
qed

theorem projection_state_case_counterexample:
  "snapshotCrops upperCaseSnapshot = [(''Karnataka'', ''Vegetables'', upperCaseTomato)]
   \<and> \<not> spec_selected ''Bangalore'' None None (''Karnataka'', ''Vegetables'', upperCaseTomato)
   \<and> emittedCrops (getCityDemand (Some upperCaseSnapshot) ''Bangalore'' None None)
       = [(''Karnataka'', ''Vegetables'', upperCaseTomato)]"
  by code_simp

section \<open>Queries without a snapshot\<close>

text \<open>
  C10. Each of the three query handlers answers \<open>SnapshotUnavailable\<close> (status 503) exactly
  when \<open>demandData\<close> is \<open>null\<close> or an empty array (for the district projection: and the
  district is not blank, which is checked first). A snapshot that was loaded and has no
  state gets the same responses as no snapshot, for every query; the responses do not
  depend on anything else, no lookup is made.
\<close>

theorem unavailable_on_empty_snapshot:
  "(getCities d = Unavailable503 \<longleftrightarrow> d = None \<or> d = Some [])
   \<and> (getAllCities localeCompare d = Unavailable503 \<longleftrightarrow> d = None \<or> d = Some [])
   \<and> (getCityDemand d cityParam sq cq = Unavailable503
        \<longleftrightarrow> trim cityParam \<noteq> [] \<and> (d = None \<or> d = Some []))
   \<and> loadDemandData (FileContent []) = Some []
   \<and> getCities (Some []) = getCities None
   \<and> getAllCities localeCompare (Some []) = getAllCities localeCompare None
   \<and> getCityDemand (Some []) cityParam sq cq = getCityDemand None cityParam sq cq"
proof (intro conjI)
  show "getCities d = Unavailable503 \<longleftrightarrow> d = None \<or> d = Some []"
    by (cases d) (auto simp: getCities_def Let_def)
  show "getAllCities localeCompare d = Unavailable503 \<longleftrightarrow> d = None \<or> d = Some []"
    by (cases d) (auto simp: getAllCities_def Let_def)
  show "getCityDemand d cityParam sq cq = Unavailable503
        \<longleftrightarrow> trim cityParam \<noteq> [] \<and> (d = None \<or> d = Some [])"
    by (cases d) (auto simp: getCityDemand_def Let_def)
  show "loadDemandData (FileContent []) = Some []" by (simp add: loadDemandData_def)
  show "getCities (Some []) = getCities None" by (simp add: getCities_def)
  show "getAllCities localeCompare (Some []) = getAllCities localeCompare None"
    by (simp add: getAllCities_def)
  show "getCityDemand (Some []) cityParam sq cq = getCityDemand None cityParam sq cq"
    by (simp add: getCityDemand_def Let_def)
qed

theorem unavailable_on_empty_snapshot_witness:
  "getCities (loadDemandData (FileContent [])) = Unavailable503
   \<and> getAllCities compareCodeUnits (loadDemandData (FileContent [])) = Unavailable503
   \<and> trim ''Bangalore'' \<noteq> []
   \<and> getCityDemand (loadDemandData (FileContent [])) ''Bangalore'' None None = Unavailable503
   \<and> getCityDemand None ''Bangalore'' None None = Unavailable503
   \<and> getCityDemand (loadDemandData FileMissing) ''Bangalore'' None None = Unavailable503"
  using unavailable_on_empty_snapshot[of "Some []" compareCodeUnits "''Bangalore''" None None]
        unavailable_on_empty_snapshot[of None compareCodeUnits "''Bangalore''" None None]
  by (simp add: loadDemandData_def scenario_bangalore)

section \<open>The full city index\<close>

lemma set_setAdd: "set (setAdd x xs) = insert x (set xs)"
  by (auto simp: setAdd_def)

lemma distinct_setAdd: "distinct xs \<Longrightarrow> distinct (setAdd x xs)"
  by (simp add: setAdd_def)

lemma fold_setAdd:
  "distinct acc \<Longrightarrow>
     distinct (fold (\<lambda>c acc. setAdd (f c) acc) cs acc)
     \<and> set (fold (\<lambda>c acc. setAdd (f c) acc) cs acc) = set acc \<union> f ` set cs"
  by (induction cs arbitrary: acc) (auto simp: set_setAdd distinct_setAdd)

lemma fold_fold_setAdd:
  "distinct acc \<Longrightarrow>
     distinct (fold (\<lambda>st acc. fold (\<lambda>c acc. setAdd (f c) acc) (g st) acc) sts acc)
     \<and> set (fold (\<lambda>st acc. fold (\<lambda>c acc. setAdd (f c) acc) (g st) acc) sts acc)
         = set acc \<union> (\<Union>st \<in> set sts. f ` set (g st))"
proof (induction sts arbitrary: acc)
  case Nil
  then show ?case by simp
next
  case (Cons st sts)
  from fold_setAdd[OF Cons.prems, of f "g st"]
  have d: "distinct (fold (\<lambda>c acc. setAdd (f c) acc) (g st) acc)"
    and s: "set (fold (\<lambda>c acc. setAdd (f c) acc) (g st) acc) = set acc \<union> f ` set (g st)"
    by simp_all
  from Cons.IH[OF d] s show ?case by auto
qed

lemma cityCategoryNames_card:
  "length (cityCategoryNames sts) = card (\<Union>st \<in> set sts. cat_name ` set (categories st))"
proof -
  from fold_fold_setAdd[of "[]" cat_name categories sts]
  have "distinct (cityCategoryNames sts)"
    and "set (cityCategoryNames sts) = (\<Union>st \<in> set sts. cat_name ` set (categories st))"
    by (simp_all add: cityCategoryNames_def)
  then show ?thesis by (metis distinct_card)
qed

lemma set_insertCity: "set (insertCity lc x ys) = insert x (set ys)"
  by (induction ys) auto

lemma set_sortCities: "set (sortCities lc xs) = set xs"
  unfolding sortCities_def by (induction xs) (simp_all add: set_insertCity)

lemma cityEntryOf_totalCategories:
  assumes "cityEntryOf p = Some e"
  shows "totalCategories (city_summary e)
         = card (\<Union>st \<in> set (states e). cat_name ` set (categories st))"
proof -
  obtain cityName cityData where p: "p = (cityName, cityData)" by (cases p)
  let ?sts = "List.map_filter cityStateEntryOf (cd_states cityData)"
  from assms p have "states e = ?sts"
    and "totalCategories (city_summary e) = length (cityCategoryNames ?sts)"
    unfolding cityEntryOf_def Let_def by (auto split: if_splits)
  then show ?thesis by (simp add: cityCategoryNames_card)
qed

text \<open>
  C9. In the response of the full city index, the \<open>totalCategories\<close> of every city entry is
  the number of distinct category names under the city's states: the cardinality of the
  set of names, so that a category under two states of a city counts once.
\<close>

theorem city_total_categories_distinct:
  assumes "getAllCities localeCompare d = Ok200 res"
  shows "\<forall>e \<in> set (ac_cities res).
           totalCategories (city_summary e)
             = card (\<Union>st \<in> set (states e). cat_name ` set (categories st))"
proof
  fix e assume e: "e \<in> set (ac_cities res)"
  from assms obtain snap where
    "ac_cities res = sortCities localeCompare (List.map_filter cityEntryOf (buildCitiesMap snap))"
    unfolding getAllCities_def Let_def by (auto split: option.splits if_splits)
  with e have "e \<in> set (List.map_filter cityEntryOf (buildCitiesMap snap))"
    by (simp add: set_sortCities)
  then obtain p where "cityEntryOf p = Some e" by (blast dest: map_filter_mem)
  then show "totalCategories (city_summary e)
             = card (\<Union>st \<in> set (states e). cat_name ` set (categories st))"
    by (rule cityEntryOf_totalCategories)
qed

lemma two_state_index:
  "getAllCities compareCodeUnits (Some twoStateSnapshot)
     = Ok200 \<lparr>ac_totalCities = 1, ac_cities = [hyderabadEntry]\<rparr>"
  by code_simp

theorem city_total_categories_distinct_witness:
  "getAllCities compareCodeUnits (Some twoStateSnapshot)
     = Ok200 \<lparr>ac_totalCities = 1, ac_cities = [hyderabadEntry]\<rparr>
   \<and> totalCategories (city_summary hyderabadEntry)
       = card (\<Union>st \<in> set (states hyderabadEntry). cat_name ` set (categories st))
   \<and> totalCategories (city_summary hyderabadEntry) = 2
   \<and> map (\<lambda>st. map cat_name (categories st)) (states hyderabadEntry)
       = [[''Vegetables''], [''Vegetables'', ''Fruits'']]
   \<and> sum_list (map (\<lambda>st. totalCategories (summary st)) (states hyderabadEntry)) = 3"
proof -
  from city_total_categories_distinct[OF two_state_index]
  have "totalCategories (city_summary hyderabadEntry)
          = card (\<Union>st \<in> set (states hyderabadEntry). cat_name ` set (categories st))"
    by simp
  moreover have "totalCategories (city_summary hyderabadEntry) = 2"
    "map (\<lambda>st. map cat_name (categories st)) (states hyderabadEntry)
       = [[''Vegetables''], [''Vegetables'', ''Fruits'']]"
    "sum_list (map (\<lambda>st. totalCategories (summary st)) (states hyderabadEntry)) = 3"
    by (simp_all add: hyderabadEntry_def)
  ultimately show ?thesis using two_state_index by simp
qed

end
